theory Spec2Isabelle
  imports Complex_Main
begin

section \<open>Byte strings\<close>

text \<open>
  A Python \<^verbatim>\<open>bytes\<close> value is a list of 8-bit characters. A slice \<^verbatim>\<open>b[i:j]\<close> with
  \<open>0 \<le> i \<le> j\<close> never raises: it is cut short at the end of the data.
\<close>

type_synonym bytes = "char list"

definition slice :: "nat \<Rightarrow> nat \<Rightarrow> 'a list \<Rightarrow> 'a list" where
  "slice i j xs = take (j - i) (drop i xs)"

text \<open>\<^verbatim>\<open>bytes.lstrip()\<close> removes leading ASCII whitespace: space, tab, newline, carriage
  return, vertical tab and form feed.\<close>

definition ascii_whitespace :: "char list" where
  "ascii_whitespace = [CHR 0x20, CHR 0x09, CHR 0x0A, CHR 0x0D, CHR 0x0B, CHR 0x0C]"

definition lstrip :: "bytes \<Rightarrow> bytes" where
  "lstrip b = dropWhile (\<lambda>c. c \<in> set ascii_whitespace) b"

section \<open>Format detection (utils.py)\<close>

datatype format = JPEG | PNG | GIF | WEBP | BMP | TIFF | HEIC | SVG

definition png_signature :: bytes where
  "png_signature = [CHR 0x89, CHR ''P'', CHR ''N'', CHR ''G'', CHR 0x0D, CHR 0x0A, CHR 0x1A, CHR 0x0A]"

definition heic_brands :: "bytes list" where
  "heic_brands = [''heic'', ''heix'', ''hevc'', ''mif1'', ''msf1'', ''avif'']"

text \<open>The body of \<^verbatim>\<open>detect_format\<close> once the first 32 bytes have been read; \<open>None\<close> is
  Python's \<^verbatim>\<open>None\<close>, the spec's \<^verbatim>\<open>Unknown\<close>.\<close>

definition detect_format_header :: "bytes \<Rightarrow> format option" where
  "detect_format_header header =
    (if take 3 header = [CHR 0xFF, CHR 0xD8, CHR 0xFF] then Some JPEG
     else if take 8 header = png_signature then Some PNG
     else if take 6 header \<in> set [''GIF87a'', ''GIF89a''] then Some GIF
     else if take 4 header = ''RIFF'' \<and> slice 8 12 header = ''WEBP'' then Some WEBP
     else if take 2 header = ''BM'' then Some BMP
     else if take 4 header \<in> set [[CHR ''I'', CHR ''I'', CHR 0x2A, CHR 0x00],
                                   [CHR ''M'', CHR ''M'', CHR 0x00, CHR 0x2A]] then Some TIFF
     else if length header \<ge> 12 \<and> slice 4 8 header = ''ftyp''
             \<and> slice 8 12 header \<in> set heic_brands then Some HEIC
     else (let stripped = lstrip header in
           if take 5 stripped = ''<?xml'' \<or> take 4 stripped = ''<svg'' then Some SVG
           else None))"

section \<open>Upload validation (api/main.py)\<close>

definition MAX_UPLOAD :: nat where
  "MAX_UPLOAD = 20 * 1024 * 1024"

text \<open>The keys of \<^verbatim>\<open>ALLOWED_MAGIC\<close>, in the order the dictionary literal lists them.\<close>

definition ALLOWED_MAGIC :: "bytes list" where
  "ALLOWED_MAGIC = [[CHR 0xFF, CHR 0xD8, CHR 0xFF], [CHR 0x89, CHR ''P'', CHR ''N'', CHR ''G''],
                    ''GIF8'', ''RIFF'', ''BM'', ''II'', ''MM'']"

text \<open>\<^verbatim>\<open>HTTPException(status, detail)\<close>: only the status code is kept.\<close>

datatype http_error = HTTPException nat

fun magic_loop :: "bytes list \<Rightarrow> bytes \<Rightarrow> http_error + unit" where
  "magic_loop [] data = Inl (HTTPException 415)"
| "magic_loop (magic # rest) data =
     (if take (length magic) data = magic then Inr () else magic_loop rest data)"

definition validate_upload :: "bytes \<Rightarrow> http_error + unit" where
  "validate_upload data =
     (if length data > MAX_UPLOAD then Inl (HTTPException 413)
      else magic_loop ALLOWED_MAGIC data)"

section \<open>The sniffer as the specification words it\<close>

text \<open>
  The specification describes the sniffer as a list of signatures tried in priority
  order. The table below follows its words; the test for SVG is a parameter, because the
  code looks for the two SVG markers after skipping leading whitespace.
\<close>

definition starts_with :: "bytes \<Rightarrow> bytes \<Rightarrow> bool" where
  "starts_with sig h = (take (length sig) h = sig)"

definition svg_marker :: "bytes \<Rightarrow> bool" where
  "svg_marker h = (starts_with ''<?xml'' h \<or> starts_with ''<svg'' h)"

definition signature_table :: "(bytes \<Rightarrow> bool) \<Rightarrow> ((bytes \<Rightarrow> bool) \<times> format) list" where
  "signature_table svg =
    [(starts_with [CHR 0xFF, CHR 0xD8, CHR 0xFF], JPEG),
     (starts_with png_signature, PNG),
     (\<lambda>h. starts_with ''GIF87a'' h \<or> starts_with ''GIF89a'' h, GIF),
     (\<lambda>h. starts_with ''RIFF'' h \<and> slice 8 12 h = ''WEBP'', WEBP),
     (starts_with ''BM'', BMP),
     (\<lambda>h. starts_with [CHR ''I'', CHR ''I'', CHR 0x2A, CHR 0x00] h
           \<or> starts_with [CHR ''M'', CHR ''M'', CHR 0x00, CHR 0x2A] h, TIFF),
     (\<lambda>h. slice 4 8 h = ''ftyp'' \<and> slice 8 12 h \<in> set heic_brands, HEIC),
     (svg, SVG)]"

fun first_match :: "((bytes \<Rightarrow> bool) \<times> format) list \<Rightarrow> bytes \<Rightarrow> format option" where
  "first_match [] h = None"
| "first_match ((matches, tag) # rest) h = (if matches h then Some tag else first_match rest h)"

text \<open>The sniffer of the specification: the SVG markers must be the leading bytes.\<close>

definition sniffer_spec :: "bytes \<Rightarrow> format option" where
  "sniffer_spec h = first_match (signature_table svg_marker) h"

section \<open>Paths (pathlib, POSIX flavour)\<close>

text \<open>
  A path is an anchor (empty, \<^verbatim>\<open>/\<close> or \<^verbatim>\<open>//\<close>) and its components. \<open>Path s\<close> is the
  constructor call \<^verbatim>\<open>Path(s)\<close>: it splits at \<^verbatim>\<open>/\<close> and drops empty components and
  \<^verbatim>\<open>.\<close>; two paths are equal when anchor and components are.
\<close>

datatype path = PurePath (anchor: string) (parts: "string list")

fun split_sep :: "string \<Rightarrow> string list" where
  "split_sep [] = [[]]"
| "split_sep (c # cs) =
     (if c = CHR ''/'' then [] # split_sep cs
      else (case split_sep cs of [] \<Rightarrow> [[c]] | p # ps \<Rightarrow> (c # p) # ps))"

definition anchor_of :: "string \<Rightarrow> string" where
  "anchor_of s = (if take 2 s = ''//'' \<and> take 3 s \<noteq> ''///'' then ''//''
                  else if take 1 s = ''/'' then ''/'' else [])"

definition Path :: "string \<Rightarrow> path" where
  "Path s = PurePath (anchor_of s) (filter (\<lambda>p. p \<noteq> [] \<and> p \<noteq> ''.'') (split_sep s))"

definition name :: "path \<Rightarrow> string" where
  "name p = (if parts p = [] then [] else last (parts p))"

text \<open>\<^verbatim>\<open>s.rfind(c)\<close>, with \<open>None\<close> for \<open>-1\<close>.\<close>

definition rfind :: "char \<Rightarrow> string \<Rightarrow> nat option" where
  "rfind c s = (case dropWhile (\<lambda>x. x \<noteq> c) (rev s) of [] \<Rightarrow> None | _ # r \<Rightarrow> Some (length r))"

text \<open>\<^verbatim>\<open>PurePath.suffix\<close> and \<^verbatim>\<open>PurePath.stem\<close>: the last dot of the name starts the
  suffix unless it is the first or the last character.\<close>

definition suffix_of :: "path \<Rightarrow> string" where
  "suffix_of p = (case rfind (CHR ''.'') (name p) of
                    Some i \<Rightarrow> if 0 < i \<and> i + 1 < length (name p) then drop i (name p) else []
                  | None \<Rightarrow> [])"

definition stem :: "path \<Rightarrow> string" where
  "stem p = (case rfind (CHR ''.'') (name p) of
               Some i \<Rightarrow> if 0 < i \<and> i + 1 < length (name p) then take i (name p) else name p
             | None \<Rightarrow> name p)"

definition parent :: "path \<Rightarrow> path" where
  "parent p = PurePath (anchor p) (butlast (parts p))"

text \<open>\<^verbatim>\<open>p / s\<close>: an absolute right operand replaces the left one.\<close>

definition joinpath :: "path \<Rightarrow> string \<Rightarrow> path" where
  "joinpath p s = (if take 1 s = ''/'' then Path s
                   else PurePath (anchor p) (parts p @ parts (Path s)))"

text \<open>The invariant of every path that \<open>Path\<close> builds.\<close>

definition wf_path :: "path \<Rightarrow> bool" where
  "wf_path p = (\<forall>c\<in>set (parts p). c \<noteq> [] \<and> c \<noteq> ''.'' \<and> CHR ''/'' \<notin> set c)"

section \<open>File system\<close>

text \<open>
  What the code asks of the file system: whether a path exists, whether it is a
  directory or a regular file, the size of a file, and its first bytes. A regular file
  carries a flag telling whether \<^verbatim>\<open>open\<close> succeeds (it raises \<^verbatim>\<open>OSError\<close> otherwise).
\<close>

datatype entry = Directory | RegularFile bool bytes | OtherEntry

type_synonym filesystem = "path \<Rightarrow> entry option"

definition exists :: "filesystem \<Rightarrow> path \<Rightarrow> bool" where
  "exists fs p = (fs p \<noteq> None)"

definition is_dir :: "filesystem \<Rightarrow> path \<Rightarrow> bool" where
  "is_dir fs p = (fs p = Some Directory)"



text \<open>\<^verbatim>\<open>detect_format\<close>: a failing \<^verbatim>\<open>open\<close> (missing path, directory, unreadable file) is
  caught and gives \<^verbatim>\<open>None\<close>; otherwise the first 32 bytes are classified.\<close>

definition detect_format :: "filesystem \<Rightarrow> path \<Rightarrow> format option" where
  "detect_format fs p = (case fs p of
       Some (RegularFile True d) \<Rightarrow> detect_format_header (take 32 d)
     | _ \<Rightarrow> None)"

section \<open>Input validation and output resolution (utils.py)\<close>

text \<open>A Python float, for the numbers that the range checks of the editor compare and
  put into their message: a finite float is the rational it denotes.\<close>

datatype pyfloat = Finite rat | Plus_infinity | Minus_infinity | NaN

text \<open>The exceptions the code raises, each with the message it formats.\<close>

datatype message =
    File_not_found path
  | Not_a_file path
  | File_too_large nat nat
  | Unsupported_format path
  | Would_overwrite
  | Cannot_create path
  | Specify_dimensions
  | Out_of_range string rat rat pyfloat
  | Invalid_hex_color string
  | Unknown_filter string
  | Unknown_frame string
  | Bad_flip string
  | Unknown_color string
  | Unknown_extension string

datatype error =
    FileNotFoundError message
  | ValueError message
  | OSError message
  | ZeroDivisionError
  | ProcessingError string



text \<open>An optional string argument is used when it is neither \<^verbatim>\<open>None\<close> nor empty.\<close>

fun given :: "string option \<Rightarrow> bool" where
  "given None = False"
| "given (Some s) = (s \<noteq> [])"

definition default_output :: "path \<Rightarrow> string \<Rightarrow> string option \<Rightarrow> path" where
  "default_output input_path suffix ext =
     (let extension = (if given ext then the ext else suffix_of input_path);
          extension = (if take 1 extension = ''.'' then extension else ''.'' @ extension)
      in joinpath (parent input_path) (stem input_path @ ''_'' @ suffix @ extension))"

definition resolve_output ::
  "filesystem \<Rightarrow> path \<Rightarrow> string option \<Rightarrow> string \<Rightarrow> string option \<Rightarrow> bool \<Rightarrow> error + path" where
  "resolve_output fs input_path output_arg tool_suffix ext overwrite =
     (if given output_arg then
        (let out = Path (the output_arg) in
         if is_dir fs out
         then Inr (joinpath out (name (default_output input_path tool_suffix ext)))
         else Inr out)
      else
        (let out = default_output input_path tool_suffix ext in
         if out = input_path \<and> \<not> overwrite then Inl (ValueError Would_overwrite)
         else Inr out))"

text \<open>
  The file name \<^verbatim>\<open>{input-stem}_{suffix}.{ext}\<close> of the specification, where \<^verbatim>\<open>{ext}\<close> is the
  forced extension, or else the suffix of the input, without its leading dot.
\<close>

definition bare_ext :: "path \<Rightarrow> string option \<Rightarrow> string" where
  "bare_ext input_path ext =
     (let e = (if given ext then the ext else suffix_of input_path)
      in if take 1 e = ''.'' then tl e else e)"

definition synthesized_name :: "path \<Rightarrow> string \<Rightarrow> string option \<Rightarrow> string" where
  "synthesized_name input_path suffix ext =
     stem input_path @ ''_'' @ suffix @ ''.'' @ bare_ext input_path ext"

section \<open>Batch runner (utils.py)\<close>















text \<open>A file system holding one small JPEG file, and a processor that copies its input
  to the output path.\<close>

definition jpeg_small :: bytes where
  "jpeg_small = [CHR 0xFF, CHR 0xD8, CHR 0xFF, CHR 0xE0]"

definition fs_one :: filesystem where
  "fs_one = Map.empty(Path ''a.jpg'' \<mapsto> RegularFile True jpeg_small)"


section \<open>Resize (resize.py)\<close>

text \<open>
  The new size is computed in Python floats. A finite float is the rational it denotes;
  \<open>fl\<close> rounds a rational to the nearest binary64 number, ties to even, as true division
  of integers and float multiplication do. Exponent range is not modelled: the values of
  the computation (pixel counts and their ratios) are far from overflow and underflow.
\<close>

function bit_length :: "int \<Rightarrow> nat" where
  "bit_length n = (if n \<le> 0 then 0 else Suc (bit_length (n div 2)))"
  by pat_completeness auto
termination
  by (relation "measure nat") auto

declare bit_length.simps [simp del]

definition round_half_even :: "int \<Rightarrow> int \<Rightarrow> int" where
  "round_half_even n d =
     (let q = n div d; r = n mod d in
      if 2 * r < d then q else if 2 * r > d then q + 1 else if even q then q else q + 1)"

text \<open>The binary64 number nearest to \<open>n / d\<close> for positive \<open>n\<close> and \<open>d\<close>, as a mantissa of 53
  bits and an exponent.\<close>

definition nearest_double :: "int \<Rightarrow> int \<Rightarrow> int \<times> int" where
  "nearest_double n d =
     (let k = int (bit_length n) - int (bit_length d);
          ex0 = k - 53;
          ex = (if (if ex0 \<ge> 0 then n \<ge> d * 2 ^ nat ex0 * 2 ^ 53
                    else n * 2 ^ nat (- ex0) \<ge> d * 2 ^ 53)
                then ex0 + 1 else ex0)
      in (if ex \<ge> 0 then round_half_even n (d * 2 ^ nat ex)
          else round_half_even (n * 2 ^ nat (- ex)) d, ex))"

definition fl :: "rat \<Rightarrow> rat" where
  "fl q = (if q = 0 then 0 else
     let (n, d) = quotient_of \<bar>q\<bar>; (m, ex) = nearest_double n d
     in sgn q * of_int m * (if ex \<ge> 0 then 2 ^ nat ex else 1 / 2 ^ nat (- ex)))"

text \<open>\<^verbatim>\<open>int(x)\<close> truncates towards zero.\<close>

definition py_int :: "rat \<Rightarrow> int" where
  "py_int x = (if x \<ge> 0 then \<lfloor>x\<rfloor> else \<lceil>x\<rceil>)"

text \<open>An optional integer argument counts in \<^verbatim>\<open>elif width:\<close> when it is neither
  \<^verbatim>\<open>None\<close> nor zero.\<close>

fun nonzero :: "int option \<Rightarrow> bool" where
  "nonzero None = False"
| "nonzero (Some n) = (n \<noteq> 0)"

text \<open>\<^verbatim>\<open>resize.process_single\<close> up to the call of the resampler: the size it asks for, from
  the size of the opened image and the four keyword arguments.\<close>

definition resize_new_size ::
  "int \<times> int \<Rightarrow> int option \<Rightarrow> int option \<Rightarrow> rat option \<Rightarrow> int option \<Rightarrow> error + int \<times> int" where
  "resize_new_size orig_size width height percentage max_size =
     (let orig_w = fst orig_size; orig_h = snd orig_size in
      if percentage \<noteq> None then
        Inr (py_int (fl (fl (of_int orig_w * the percentage) / 100)),
             py_int (fl (fl (of_int orig_h * the percentage) / 100)))
      else if max_size \<noteq> None then
        (if orig_w = 0 \<or> orig_h = 0 then Inl ZeroDivisionError
         else let ratio = min (fl (of_int (the max_size) / of_int orig_w))
                              (fl (of_int (the max_size) / of_int orig_h)) in
           if ratio \<ge> 1 then Inr (orig_w, orig_h)
           else Inr (py_int (fl (of_int orig_w * ratio)), py_int (fl (of_int orig_h * ratio))))
      else if nonzero width \<and> nonzero height then Inr (the width, the height)
      else if nonzero width then
        (if orig_w = 0 then Inl ZeroDivisionError
         else let ratio = fl (of_int (the width) / of_int orig_w) in
           Inr (the width, py_int (fl (of_int orig_h * ratio))))
      else if nonzero height then
        (if orig_h = 0 then Inl ZeroDivisionError
         else let ratio = fl (of_int (the height) / of_int orig_h) in
           Inr (py_int (fl (of_int orig_w * ratio)), the height))
      else Inl (ValueError Specify_dimensions))"

section \<open>HTTP adapter: staging files (api/main.py)\<close>

text \<open>
  The temporary directory as the handlers see it. \<^verbatim>\<open>mkstemp\<close> creates a new file, named
  here by a serial number and the suffix asked for; \<^verbatim>\<open>unlink(missing_ok=True)\<close> removes a
  file and does nothing when it is absent.
\<close>

type_synonym tmpfile = "nat \<times> string"

record tmpdir =
  present :: "tmpfile list"
  serial :: nat

definition mkstemp :: "string \<Rightarrow> tmpdir \<Rightarrow> tmpfile \<times> tmpdir" where
  "mkstemp sfx t =
     ((serial t, sfx), \<lparr>present = (serial t, sfx) # present t, serial = Suc (serial t)\<rparr>)"

definition unlink :: "tmpfile \<Rightarrow> tmpdir \<Rightarrow> tmpdir" where
  "unlink f t = t\<lparr>present := removeAll f (present t)\<rparr>"

text \<open>\<^verbatim>\<open>str.lower\<close> on ASCII letters.\<close>

definition lower_char :: "char \<Rightarrow> char" where
  "lower_char c = (let n = (of_char c :: nat) in if 65 \<le> n \<and> n \<le> 90 then char_of (n + 32) else c)"

definition guess_ext :: "string option \<Rightarrow> string" where
  "guess_ext filename =
     (if given filename then
        (let ext = map lower_char (suffix_of (Path (the filename))) in
         if ext \<noteq> [] then ext else ''.jpg'')
      else ''.jpg'')"

definition save_upload :: "bytes \<Rightarrow> string \<Rightarrow> tmpdir \<Rightarrow> tmpfile \<times> tmpdir" where
  "save_upload data sfx t = mkstemp sfx t"

text \<open>\<^verbatim>\<open>_output_path\<close>: the suffix of the staged input is the one it was created with.\<close>

definition output_path :: "tmpfile \<Rightarrow> string option \<Rightarrow> tmpdir \<Rightarrow> tmpfile \<times> tmpdir" where
  "output_path input_path new_ext t =
     (let ext = (if given new_ext then the new_ext
                 else if snd input_path \<noteq> [] then snd input_path else ''.png'')
      in mkstemp ext t)"

text \<open>\<^verbatim>\<open>_file_response\<close> builds a response that refers to the file; with
  \<^verbatim>\<open>background=None\<close> nothing is scheduled to run after it has been sent.\<close>

datatype response = FileResponse tmpfile string

text \<open>
  \<^verbatim>\<open>api_compress\<close>. The processor is \<^verbatim>\<open>compress.process_single\<close> with the quality bound:
  it returns or raises. The \<^verbatim>\<open>except\<close> clause removes the staged output, the
  \<^verbatim>\<open>finally\<close> clause removes the staged input on both paths.
\<close>

definition api_compress ::
  "(tmpfile \<Rightarrow> tmpfile \<Rightarrow> error option) \<Rightarrow> tmpdir \<Rightarrow> bytes \<Rightarrow> string option
     \<Rightarrow> (http_error + response) \<times> tmpdir" where
  "api_compress process_single t data filename =
     (case validate_upload data of
        Inl e \<Rightarrow> (Inl e, t)
      | Inr u \<Rightarrow>
         (let ext = guess_ext filename;
              (inp, t1) = save_upload data ext t;
              (out, t2) = output_path inp None t1
          in case process_single inp out of
               None \<Rightarrow> (Inr (FileResponse out ''compressed''), unlink inp t2)
             | Some e \<Rightarrow> (Inl (HTTPException 500), unlink inp (unlink out t2))))"

section \<open>Photo editor (editor.py)\<close>

subsection \<open>Images and the image library\<close>

text \<open>
  A decoded image: its size, its mode, whether its \<^verbatim>\<open>info\<close> dictionary has a transparency
  entry, and its pixels by column and row.
\<close>

type_synonym pixel = "nat list"

record image =
  width :: int
  height :: int
  mode :: string
  transparency :: bool
  pix :: "int \<Rightarrow> int \<Rightarrow> pixel"

text \<open>The keyword arguments of \<^verbatim>\<open>Image.save\<close> that the tools pass.\<close>

datatype save_option = Optimize | Quality int | Progressive | Compress_level int | Method int

text \<open>
  The calls into the image library. The library is a parameter, and each of its calls
  returns or raises: \<open>transform\<close> is its pixel work, the image a call returns or the
  exception it raises; \<open>getcolor\<close> is \<^verbatim>\<open>ImageColor.getcolor\<close>, the pixel a colour string
  denotes in a mode, or the \<^verbatim>\<open>ValueError\<close> for a colour it does not know; \<open>save\<close> is
  \<^verbatim>\<open>Image.save\<close>, which raises when it has no encoder for the suffix of the path or when
  the encoder refuses the image or the options. What is modelled is what the claims
  depend on: the geometry of \<^verbatim>\<open>ImageOps.expand\<close>, \<^verbatim>\<open>crop\<close>, \<^verbatim>\<open>mirror\<close>, \<^verbatim>\<open>flip\<close> and
  \<^verbatim>\<open>resize\<close>, and that \<^verbatim>\<open>convert\<close> and \<^verbatim>\<open>resize\<close> return a copy when mode or size are
  already the ones asked for.
\<close>

datatype call =
    Open
  | Convert string
  | Autocontrast
  | Enhance string pyfloat
  | Hue_shift pyfloat
  | Preset_filter string
  | Mirror
  | Flip_vertical
  | Expand int string
  | Preset_frame string
  | Crop int int int int
  | Resize int int
  | Flatten
  | Save "save_option list"

record library =
  transform :: "call \<Rightarrow> image \<Rightarrow> error + image"
  getcolor :: "string \<Rightarrow> string \<Rightarrow> error + pixel"
  save :: "image \<Rightarrow> path \<Rightarrow> save_option list \<Rightarrow> error option"

text \<open>The transforms of the editor, in the order of the pipeline; every library call is
  logged with the transform that made it.\<close>

datatype stage =
    Opening | Auto_enhance_stage | Brightness_stage | Contrast_stage | Saturation_stage
  | Sharpness_stage | Hue_stage | Filter_stage | Flip_stage | Border_stage | Frame_stage
  | Thumbnail_stage | Saving

fun rank :: "stage \<Rightarrow> nat" where
  "rank Opening = 0"
| "rank Auto_enhance_stage = 1"
| "rank Brightness_stage = 2"
| "rank Contrast_stage = 3"
| "rank Saturation_stage = 4"
| "rank Sharpness_stage = 5"
| "rank Hue_stage = 6"
| "rank Filter_stage = 7"
| "rank Flip_stage = 8"
| "rank Border_stage = 9"
| "rank Frame_stage = 10"
| "rank Thumbnail_stage = 11"
| "rank Saving = 12"

type_synonym trace = "(stage \<times> call) list"

type_synonym outcome = "(error + image) \<times> trace"

definition convert :: "library \<Rightarrow> string \<Rightarrow> image \<Rightarrow> error + image" where
  "convert lib m img =
     (if mode img = m then Inr img
      else (case transform lib (Convert m) img of
              Inl e \<Rightarrow> Inl e
            | Inr r \<Rightarrow> Inr (r\<lparr>width := width img, height := height img, mode := m\<rparr>)))"

text \<open>\<^verbatim>\<open>ImageOps.expand(img, border, fill)\<close> looks the fill colour up for the mode of the
  image, which raises for an unknown colour, and pastes the image into a new canvas of
  that colour, whose \<^verbatim>\<open>info\<close> dictionary is empty.\<close>

definition expand :: "library \<Rightarrow> int \<Rightarrow> string \<Rightarrow> image \<Rightarrow> error + image" where
  "expand lib border fill img =
     (case getcolor lib fill (mode img) of
        Inl e \<Rightarrow> Inl e
      | Inr color \<Rightarrow>
          Inr (img\<lparr>width := width img + 2 * border, height := height img + 2 * border,
                   transparency := False,
                   pix := (\<lambda>x y. if border \<le> x \<and> x < border + width img
                                    \<and> border \<le> y \<and> y < border + height img
                                 then pix img (x - border) (y - border)
                                 else color)\<rparr>))"

definition crop :: "int \<times> int \<times> int \<times> int \<Rightarrow> image \<Rightarrow> image" where
  "crop box img =
     (case box of (left, upper, right, lower) \<Rightarrow>
        img\<lparr>width := right - left, height := lower - upper,
            pix := (\<lambda>x y. pix img (x + left) (y + upper))\<rparr>)"

definition resize :: "library \<Rightarrow> int \<times> int \<Rightarrow> image \<Rightarrow> error + image" where
  "resize lib new_size img =
     (if (width img, height img) = new_size then Inr img
      else (case transform lib (Resize (fst new_size) (snd new_size)) img of
              Inl e \<Rightarrow> Inl e
            | Inr r \<Rightarrow> Inr (r\<lparr>width := fst new_size, height := snd new_size, mode := mode img\<rparr>)))"

definition mirror :: "image \<Rightarrow> image" where
  "mirror img = img\<lparr>pix := (\<lambda>x y. pix img (width img - 1 - x) y)\<rparr>"

definition flip_vertical :: "image \<Rightarrow> image" where
  "flip_vertical img = img\<lparr>pix := (\<lambda>x y. pix img x (height img - 1 - y))\<rparr>"

subsection \<open>Validation\<close>

text \<open>The two comparisons of \<^verbatim>\<open>_clamp\<close>, \<^verbatim>\<open>val < lo\<close> and \<^verbatim>\<open>val > hi\<close>, a float against a
  bound: both are false for a NaN.\<close>

fun below :: "pyfloat \<Rightarrow> rat \<Rightarrow> bool" where
  "below (Finite x) lo = (x < lo)"
| "below Minus_infinity lo = True"
| "below Plus_infinity lo = False"
| "below NaN lo = False"

fun above :: "pyfloat \<Rightarrow> rat \<Rightarrow> bool" where
  "above (Finite x) hi = (x > hi)"
| "above Minus_infinity hi = False"
| "above Plus_infinity hi = True"
| "above NaN hi = False"

definition clamp :: "pyfloat \<Rightarrow> rat \<Rightarrow> rat \<Rightarrow> string \<Rightarrow> error + pyfloat" where
  "clamp val lo hi nm =
     (if below val lo \<or> above val hi then Inl (ValueError (Out_of_range nm lo hi val))
      else Inr val)"

text \<open>\<^verbatim>\<open>s.strip(chars)\<close>, and the characters that \<^verbatim>\<open>s.strip()\<close> removes: those for which
  \<^verbatim>\<open>str.isspace\<close> holds. A string is a list of characters with code points below 256;
  among these the whitespace is 9 to 13, 28 to 32, 133 and 160.\<close>

definition strip :: "char list \<Rightarrow> string \<Rightarrow> string" where
  "strip cs s = rev (dropWhile (\<lambda>c. c \<in> set cs) (rev (dropWhile (\<lambda>c. c \<in> set cs) s)))"

definition str_whitespace :: "char list" where
  "str_whitespace = [CHR 0x09, CHR 0x0A, CHR 0x0B, CHR 0x0C, CHR 0x0D, CHR 0x1C, CHR 0x1D,
     CHR 0x1E, CHR 0x1F, CHR 0x20, CHR 0x85, CHR 0xA0]"

definition hex_digits :: "char list" where
  "hex_digits = ''0123456789abcdefABCDEF''"

definition parse_color :: "string option \<Rightarrow> error + string" where
  "parse_color color_str =
     (if \<not> given color_str then Inr ''white''
      else (let s = strip [CHR 0x27, CHR 0x22] (strip str_whitespace (the color_str)) in
            if take 1 s = ''#'' then
              (let clean = drop 1 s in
               if length clean \<notin> {3, 4, 6, 8} \<or> \<not> list_all (\<lambda>c. c \<in> set hex_digits) clean
               then Inl (ValueError (Invalid_hex_color s))
               else Inr s)
            else Inr s))"

subsection \<open>The transforms\<close>

text \<open>Each transform takes the image and the log of the calls made so far, and gives the
  new image, or the exception raised, with the log extended by its own library calls. A
  library call that raises is in the log: it was made.\<close>

definition apply_enhancement ::
  "stage \<Rightarrow> string \<Rightarrow> string \<Rightarrow> library \<Rightarrow> image \<Rightarrow> pyfloat \<Rightarrow> trace \<Rightarrow> outcome" where
  "apply_enhancement st nm kind lib img factor tr =
     (case clamp factor 0 10 nm of
        Inl e \<Rightarrow> (Inl e, tr)
      | Inr f \<Rightarrow> (transform lib (Enhance kind factor) img, tr @ [(st, Enhance kind factor)]))"

definition apply_brightness :: "library \<Rightarrow> image \<Rightarrow> pyfloat \<Rightarrow> trace \<Rightarrow> outcome" where
  "apply_brightness = apply_enhancement Brightness_stage ''brightness'' ''Brightness''"

definition apply_contrast :: "library \<Rightarrow> image \<Rightarrow> pyfloat \<Rightarrow> trace \<Rightarrow> outcome" where
  "apply_contrast = apply_enhancement Contrast_stage ''contrast'' ''Contrast''"

definition apply_saturation :: "library \<Rightarrow> image \<Rightarrow> pyfloat \<Rightarrow> trace \<Rightarrow> outcome" where
  "apply_saturation = apply_enhancement Saturation_stage ''saturation'' ''Color''"

definition apply_sharpness :: "library \<Rightarrow> image \<Rightarrow> pyfloat \<Rightarrow> trace \<Rightarrow> outcome" where
  "apply_sharpness = apply_enhancement Sharpness_stage ''sharpness'' ''Sharpness''"

definition apply_hue :: "library \<Rightarrow> image \<Rightarrow> pyfloat \<Rightarrow> trace \<Rightarrow> outcome" where
  "apply_hue lib img degrees tr =
     (case clamp degrees (- 180) 180 ''hue'' of
        Inl e \<Rightarrow> (Inl e, tr)
      | Inr d \<Rightarrow> (transform lib (Hue_shift degrees) img, tr @ [(Hue_stage, Hue_shift degrees)]))"

definition VALID_FILTERS :: "string list" where
  "VALID_FILTERS = [''grayscale'', ''sepia'', ''blur'', ''emboss'', ''contour'', ''sharpen'',
     ''smooth'', ''invert'', ''posterize'', ''solarize'', ''vintage'', ''dramatic'', ''warm'',
     ''cool'']"

definition apply_filter :: "library \<Rightarrow> image \<Rightarrow> string \<Rightarrow> trace \<Rightarrow> outcome" where
  "apply_filter lib img nm tr =
     (if nm \<notin> set VALID_FILTERS then (Inl (ValueError (Unknown_filter nm)), tr)
      else (transform lib (Preset_filter nm) img, tr @ [(Filter_stage, Preset_filter nm)]))"

definition apply_flip :: "library \<Rightarrow> image \<Rightarrow> string \<Rightarrow> trace \<Rightarrow> outcome" where
  "apply_flip lib img direction tr =
     (if direction = ''horizontal'' then (Inr (mirror img), tr @ [(Flip_stage, Mirror)])
      else if direction = ''vertical''
      then (Inr (flip_vertical img), tr @ [(Flip_stage, Flip_vertical)])
      else (Inl (ValueError (Bad_flip direction)), tr))"

definition apply_auto_enhance :: "library \<Rightarrow> image \<Rightarrow> trace \<Rightarrow> outcome" where
  "apply_auto_enhance lib img tr =
     (transform lib Autocontrast img, tr @ [(Auto_enhance_stage, Autocontrast)])"

text \<open>The border width is an \<^verbatim>\<open>int\<close>, compared as the number it is.\<close>

definition apply_border :: "library \<Rightarrow> image \<Rightarrow> int \<Rightarrow> string option \<Rightarrow> trace \<Rightarrow> outcome" where
  "apply_border lib img w color tr =
     (case clamp (Finite (of_int w)) 1 500 ''border'' of
        Inl e \<Rightarrow> (Inl e, tr)
      | Inr v \<Rightarrow>
         (case parse_color color of
            Inl e \<Rightarrow> (Inl e, tr)
          | Inr c \<Rightarrow> (expand lib w c img, tr @ [(Border_stage, Expand w c)])))"

definition FRAME_MAP :: "string list" where
  "FRAME_MAP = [''polaroid'', ''rounded'', ''shadow'']"

definition apply_frame :: "library \<Rightarrow> image \<Rightarrow> string \<Rightarrow> trace \<Rightarrow> outcome" where
  "apply_frame lib img nm tr =
     (if nm \<notin> set FRAME_MAP then (Inl (ValueError (Unknown_frame nm)), tr)
      else (transform lib (Preset_frame nm) img, tr @ [(Frame_stage, Preset_frame nm)]))"

definition apply_thumbnail :: "library \<Rightarrow> image \<Rightarrow> int \<Rightarrow> trace \<Rightarrow> outcome" where
  "apply_thumbnail lib img sz tr =
     (case clamp (Finite (of_int sz)) 16 4096 ''thumbnail size'' of
        Inl e \<Rightarrow> (Inl e, tr)
      | Inr v \<Rightarrow>
         (case convert lib ''RGB'' img of
            Inl e \<Rightarrow> (Inl e, tr @ [(Thumbnail_stage, Convert ''RGB'')])
          | Inr img1 \<Rightarrow>
             (let w = width img1; h = height img1;
                  short = min w h;
                  left = (w - short) div 2;
                  upper = (h - short) div 2;
                  img2 = crop (left, upper, left + short, upper + short) img1
              in (resize lib (sz, sz) img2,
                  tr @ [(Thumbnail_stage, Convert ''RGB''),
                        (Thumbnail_stage, Crop left upper (left + short) (upper + short)),
                        (Thumbnail_stage, Resize sz sz)]))))"

subsection \<open>Keyword arguments\<close>

text \<open>
  The keyword arguments of \<^verbatim>\<open>process_single\<close>, in the order the caller wrote them. The
  command line passes every key, with \<^verbatim>\<open>None\<close> for a flag that was not given; the HTTP
  handler passes only the keys that have a value. The factors and the hue shift are
  floats, the border width and the thumbnail size are ints.
\<close>

datatype edit_arg =
    Auto_enhance bool
  | Brightness "pyfloat option"
  | Contrast "pyfloat option"
  | Saturation "pyfloat option"
  | Sharpness "pyfloat option"
  | Hue "pyfloat option"
  | Filter_name "string option"
  | Flip "string option"
  | Border "int option"
  | Border_color "string option"
  | Frame "string option"
  | Thumbnail "int option"

fun key :: "edit_arg \<Rightarrow> string" where
  "key (Auto_enhance v) = ''auto_enhance''"
| "key (Brightness v) = ''brightness''"
| "key (Contrast v) = ''contrast''"
| "key (Saturation v) = ''saturation''"
| "key (Sharpness v) = ''sharpness''"
| "key (Hue v) = ''hue''"
| "key (Filter_name v) = ''filter_name''"
| "key (Flip v) = ''flip''"
| "key (Border v) = ''border''"
| "key (Border_color v) = ''border_color''"
| "key (Frame v) = ''frame''"
| "key (Thumbnail v) = ''thumbnail''"

text \<open>\<^verbatim>\<open>kwargs.get(k)\<close>: the entry with key \<open>k\<close>, if there is one.\<close>

definition kwargs_get :: "edit_arg list \<Rightarrow> string \<Rightarrow> edit_arg option" where
  "kwargs_get kwargs k = find (\<lambda>a. key a = k) kwargs"

text \<open>The tests of the pipeline, each with the value it hands to the transform when it
  holds. \<^verbatim>\<open>kwargs.get(k) is not None\<close> holds for every float, a NaN and zero included;
  \<^verbatim>\<open>if kwargs.get(k)\<close> is the truth value, which is false for \<^verbatim>\<open>None\<close>, for the empty
  string and for the integer zero, so that a border width or a thumbnail size of 0 is
  not handed to its transform.\<close>

definition get_auto_enhance :: "edit_arg list \<Rightarrow> bool" where
  "get_auto_enhance kwargs =
     (case kwargs_get kwargs ''auto_enhance'' of Some (Auto_enhance b) \<Rightarrow> b | _ \<Rightarrow> False)"

definition get_factor :: "edit_arg list \<Rightarrow> string \<Rightarrow> pyfloat option" where
  "get_factor kwargs k =
     (case kwargs_get kwargs k of
        Some (Brightness v) \<Rightarrow> v | Some (Contrast v) \<Rightarrow> v | Some (Saturation v) \<Rightarrow> v
      | Some (Sharpness v) \<Rightarrow> v | Some (Hue v) \<Rightarrow> v | _ \<Rightarrow> None)"

definition get_name :: "edit_arg list \<Rightarrow> string \<Rightarrow> string option" where
  "get_name kwargs k =
     (case kwargs_get kwargs k of
        Some (Filter_name v) \<Rightarrow> (if given v then v else None)
      | Some (Flip v) \<Rightarrow> (if given v then v else None)
      | Some (Frame v) \<Rightarrow> (if given v then v else None)
      | _ \<Rightarrow> None)"

definition get_size :: "edit_arg list \<Rightarrow> string \<Rightarrow> int option" where
  "get_size kwargs k =
     (case kwargs_get kwargs k of
        Some (Border v) \<Rightarrow> (if nonzero v then v else None)
      | Some (Thumbnail v) \<Rightarrow> (if nonzero v then v else None)
      | _ \<Rightarrow> None)"

text \<open>\<^verbatim>\<open>kwargs.get('border_color', 'white')\<close>.\<close>

definition get_border_color :: "edit_arg list \<Rightarrow> string option" where
  "get_border_color kwargs =
     (case kwargs_get kwargs ''border_color'' of Some (Border_color v) \<Rightarrow> v | _ \<Rightarrow> Some ''white'')"

subsection \<open>The main processor\<close>

definition and_then :: "outcome \<Rightarrow> (image \<Rightarrow> trace \<Rightarrow> outcome) \<Rightarrow> outcome" where
  "and_then r f = (case r of (Inl e, tr) \<Rightarrow> (Inl e, tr) | (Inr img, tr) \<Rightarrow> f img tr)"

text \<open>One conditional step of the pipeline: the transform runs when its argument is
  there.\<close>

definition optional :: "'a option \<Rightarrow> (image \<Rightarrow> 'a \<Rightarrow> trace \<Rightarrow> outcome) \<Rightarrow> image \<Rightarrow> trace \<Rightarrow> outcome" where
  "optional arg f img tr = (case arg of None \<Rightarrow> (Inr img, tr) | Some v \<Rightarrow> f img v tr)"

definition open_stage :: "library \<Rightarrow> image \<Rightarrow> outcome" where
  "open_stage lib decoded =
     (if mode decoded = ''P''
      then (convert lib (if transparency decoded then ''RGBA'' else ''RGB'') decoded,
            [(Opening, Open),
             (Opening, Convert (if transparency decoded then ''RGBA'' else ''RGB''))])
      else (Inr decoded, [(Opening, Open)]))"

text \<open>\<^verbatim>\<open>img.save(output_path, **options)\<close>: the image that was written, or the exception
  of the library; the call is logged either way.\<close>

definition write_image :: "library \<Rightarrow> path \<Rightarrow> save_option list \<Rightarrow> image \<Rightarrow> trace \<Rightarrow> outcome" where
  "write_image lib out_path options img tr =
     (case save lib img out_path options of
        Some e \<Rightarrow> (Inl e, tr @ [(Saving, Save options)])
      | None \<Rightarrow> (Inr img, tr @ [(Saving, Save options)]))"

definition save_stage :: "library \<Rightarrow> path \<Rightarrow> image \<Rightarrow> trace \<Rightarrow> outcome" where
  "save_stage lib out_path img tr =
     (if mode img = ''RGBA''
         \<and> map lower_char (suffix_of out_path) \<in> set [''.jpg'', ''.jpeg'']
      then (case transform lib Flatten img of
              Inl e \<Rightarrow> (Inl e, tr @ [(Saving, Flatten)])
            | Inr bg \<Rightarrow>
                write_image lib out_path [Quality 95]
                  (bg\<lparr>width := width img, height := height img, mode := ''RGB''\<rparr>)
                  (tr @ [(Saving, Flatten)]))
      else write_image lib out_path [Quality 95] img tr)"

text \<open>\<^verbatim>\<open>editor.process_single\<close>, from the image that \<^verbatim>\<open>open_image\<close> decoded to the image it
  saves, with the log of library calls.\<close>

definition process_single :: "library \<Rightarrow> image \<Rightarrow> path \<Rightarrow> edit_arg list \<Rightarrow> outcome" where
  "process_single lib decoded out_path kwargs =
     and_then (and_then (and_then (and_then (and_then (and_then (and_then (and_then (and_then
     (and_then (and_then (and_then
       (open_stage lib decoded)
       (\<lambda>img tr. if get_auto_enhance kwargs then apply_auto_enhance lib img tr else (Inr img, tr)))
       (optional (get_factor kwargs ''brightness'') (apply_brightness lib)))
       (optional (get_factor kwargs ''contrast'') (apply_contrast lib)))
       (optional (get_factor kwargs ''saturation'') (apply_saturation lib)))
       (optional (get_factor kwargs ''sharpness'') (apply_sharpness lib)))
       (optional (get_factor kwargs ''hue'') (apply_hue lib)))
       (optional (get_name kwargs ''filter_name'') (apply_filter lib)))
       (optional (get_name kwargs ''flip'') (apply_flip lib)))
       (optional (get_size kwargs ''border'')
          (\<lambda>img w. apply_border lib img w (get_border_color kwargs))))
       (optional (get_name kwargs ''frame'') (apply_frame lib)))
       (optional (get_size kwargs ''thumbnail'') (apply_thumbnail lib)))
       (save_stage lib out_path)"

text \<open>
  The pipeline as the specification describes it: an ordered list of optional steps, each
  with the transform it belongs to, folded over the opened image.
\<close>

definition pipeline ::
  "library \<Rightarrow> path \<Rightarrow> edit_arg list \<Rightarrow> (stage \<times> (image \<Rightarrow> trace \<Rightarrow> outcome)) list" where
  "pipeline lib out_path kwargs =
     [(Auto_enhance_stage,
         \<lambda>img tr. if get_auto_enhance kwargs then apply_auto_enhance lib img tr else (Inr img, tr)),
      (Brightness_stage, optional (get_factor kwargs ''brightness'') (apply_brightness lib)),
      (Contrast_stage, optional (get_factor kwargs ''contrast'') (apply_contrast lib)),
      (Saturation_stage, optional (get_factor kwargs ''saturation'') (apply_saturation lib)),
      (Sharpness_stage, optional (get_factor kwargs ''sharpness'') (apply_sharpness lib)),
      (Hue_stage, optional (get_factor kwargs ''hue'') (apply_hue lib)),
      (Filter_stage, optional (get_name kwargs ''filter_name'') (apply_filter lib)),
      (Flip_stage, optional (get_name kwargs ''flip'') (apply_flip lib)),
      (Border_stage, optional (get_size kwargs ''border'')
         (\<lambda>img w. apply_border lib img w (get_border_color kwargs))),
      (Frame_stage, optional (get_name kwargs ''frame'') (apply_frame lib)),
      (Thumbnail_stage, optional (get_size kwargs ''thumbnail'') (apply_thumbnail lib)),
      (Saving, save_stage lib out_path)]"

text \<open>A step logs only calls of its own transform, after the calls already logged.\<close>

definition logs_only :: "stage \<Rightarrow> (image \<Rightarrow> trace \<Rightarrow> outcome) \<Rightarrow> bool" where
  "logs_only st f = (\<forall>img tr. \<exists>ext. snd (f img tr) = tr @ ext \<and> fst ` set ext \<subseteq> {st})"

text \<open>What a caller can observe of an outcome: the size of the saved image and single
  pixels of it.\<close>

definition result_size :: "outcome \<Rightarrow> error + int \<times> int" where
  "result_size r = (case fst r of Inl e \<Rightarrow> Inl e | Inr img \<Rightarrow> Inr (width img, height img))"

definition result_pixel :: "outcome \<Rightarrow> int \<Rightarrow> int \<Rightarrow> error + pixel" where
  "result_pixel r x y = (case fst r of Inl e \<Rightarrow> Inl e | Inr img \<Rightarrow> Inr (pix img x y))"

text \<open>The square that the thumbnail step cuts out of an image before resampling it.\<close>

definition center_square :: "image \<Rightarrow> image" where
  "center_square img =
     (let short = min (width img) (height img);
          left = (width img - short) div 2;
          upper = (height img - short) div 2
      in crop (left, upper, left + short, upper + short) img)"

text \<open>A library for evaluation on RGB images: white and black are the colours it knows,
  its pixel work returns the image unchanged, and it has an encoder for the suffixes of
  \<^verbatim>\<open>SUPPORTED_WRITE\<close> (utils.py).\<close>

definition SUPPORTED_WRITE :: "string list" where
  "SUPPORTED_WRITE = [''.jpg'', ''.jpeg'', ''.png'', ''.gif'', ''.webp'', ''.bmp'', ''.tiff'',
     ''.tif'']"

definition plain_library :: library where
  "plain_library =
     \<lparr>transform = (\<lambda>c img. Inr img),
      getcolor = (\<lambda>c m. if c = ''white'' then Inr [255, 255, 255]
                         else if c = ''black'' then Inr [0, 0, 0]
                         else Inl (ValueError (Unknown_color c))),
      save = (\<lambda>img p options. if map lower_char (suffix_of p) \<in> set SUPPORTED_WRITE then None
                               else Some (ValueError (Unknown_extension (suffix_of p))))\<rparr>"

text \<open>A black RGB image of 80 by 80 pixels, and the same image inside a white border of
  10 pixels.\<close>

definition black_80 :: image where
  "black_80 = \<lparr>width = 80, height = 80, mode = ''RGB'', transparency = False,
                pix = (\<lambda>x y. [0, 0, 0])\<rparr>"

definition bordered_80 :: image where
  "bordered_80 = \<lparr>width = 100, height = 100, mode = ''RGB'', transparency = False,
                   pix = (\<lambda>x y. if 10 \<le> x \<and> x < 90 \<and> 10 \<le> y \<and> y < 90 then [0, 0, 0]
                                 else [255, 255, 255])\<rparr>"

section \<open>Compress (compress.py)\<close>

text \<open>\<^verbatim>\<open>compress.process_single\<close> from the decoded image: the image it saved or the
  exception raised, with the library calls it made, logged as opening and saving. The
  quality goes from the caller into the keyword arguments of \<^verbatim>\<open>save\<close> as it is.\<close>

definition compress_process_single :: "library \<Rightarrow> image \<Rightarrow> path \<Rightarrow> int \<Rightarrow> outcome" where
  "compress_process_single lib img out_path quality =
     (let out_ext = map lower_char (suffix_of out_path) in
      if out_ext \<in> set [''.jpg'', ''.jpeg'']
      then (if mode img \<in> set [''RGBA'', ''P'', ''LA'']
            then (case convert lib ''RGB'' img of
                    Inl e \<Rightarrow> (Inl e, [(Opening, Open), (Saving, Convert ''RGB'')])
                  | Inr rgb \<Rightarrow>
                      write_image lib out_path [Optimize, Quality quality, Progressive] rgb
                        [(Opening, Open), (Saving, Convert ''RGB'')])
            else write_image lib out_path [Optimize, Quality quality, Progressive] img
                   [(Opening, Open)])
      else if out_ext = ''.png''
      then write_image lib out_path [Optimize, Compress_level 9] img [(Opening, Open)]
      else if out_ext = ''.webp''
      then write_image lib out_path [Optimize, Quality quality, Method 6] img [(Opening, Open)]
      else write_image lib out_path [Optimize, Quality quality] img [(Opening, Open)])"

text \<open>The bounded parameters of the editor: the name in the message, the transform, the
  value that \<open>process_single\<close> hands to the transform, if it hands one, and the two
  bounds.\<close>

definition range_checks :: "edit_arg list \<Rightarrow> (string \<times> stage \<times> pyfloat option \<times> rat \<times> rat) list" where
  "range_checks kwargs =
     [(''brightness'', Brightness_stage, get_factor kwargs ''brightness'', 0, 10),
      (''contrast'', Contrast_stage, get_factor kwargs ''contrast'', 0, 10),
      (''saturation'', Saturation_stage, get_factor kwargs ''saturation'', 0, 10),
      (''sharpness'', Sharpness_stage, get_factor kwargs ''sharpness'', 0, 10),
      (''hue'', Hue_stage, get_factor kwargs ''hue'', - 180, 180),
      (''border'', Border_stage,
         map_option (\<lambda>w. Finite (of_int w)) (get_size kwargs ''border''), 1, 500),
      (''thumbnail size'', Thumbnail_stage,
         map_option (\<lambda>w. Finite (of_int w)) (get_size kwargs ''thumbnail''), 16, 4096)]"

text \<open>A minimal ISO base media header: a 24-byte \<^verbatim>\<open>ftyp\<close> box of brand \<^verbatim>\<open>heic\<close>.\<close>

definition heic_sample :: bytes where
  "heic_sample = [CHR 0x00, CHR 0x00, CHR 0x00, CHR 0x18] @ ''ftypheic''"

section \<open>Properties of upload validation\<close>

lemma magic_loop_rejects:
  "magic_loop ms data = Inl e \<longleftrightarrow>
     e = HTTPException 415 \<and> (\<forall>m\<in>set ms. take (length m) data \<noteq> m)"
  by (induction ms) auto

lemma magic_loop_accepts:
  "magic_loop ms data = Inr u \<longleftrightarrow> (\<exists>m\<in>set ms. take (length m) data = m)"
  by (induction ms) auto

lemma svg_first_byte:
  assumes "detect_format_header h = Some SVG"
  shows "h \<noteq> [] \<and> (hd h \<in> set ascii_whitespace \<or> hd h = CHR ''<'')"
proof (cases h)
  case Nil
  with assms show ?thesis
    by (simp add: detect_format_header_def lstrip_def slice_def png_signature_def
        split: if_splits)
next
  case (Cons c cs)
  show ?thesis
  proof (cases "c \<in> set ascii_whitespace")
    case True
    then show ?thesis using Cons by simp
  next
    case False
    then have "lstrip h = h" using Cons by (simp add: lstrip_def)
    with assms have "take 5 h = ''<?xml'' \<or> take 4 h = ''<svg''"
      by (simp add: detect_format_header_def Let_def split: if_splits)
    then show ?thesis using Cons by auto
  qed
qed

lemma no_magic_of_first_byte:
  assumes "data \<noteq> []"
    and "hd data \<notin> {CHR 0xFF, CHR 0x89, CHR ''G'', CHR ''R'', CHR ''B'', CHR ''I'', CHR ''M''}"
  shows "\<forall>m\<in>set ALLOWED_MAGIC. take (length m) data \<noteq> m"
  using assms by (cases data) (auto simp: ALLOWED_MAGIC_def)

lemma svg_has_no_magic:
  assumes "detect_format_header (take 32 data) = Some SVG"
  shows "\<forall>m\<in>set ALLOWED_MAGIC. take (length m) data \<noteq> m"
proof -
  from svg_first_byte[OF assms]
  have "data \<noteq> []" and "hd data \<in> set ascii_whitespace \<or> hd data = CHR ''<''"
    by (cases data; auto)+
  then show ?thesis
    by (intro no_magic_of_first_byte) (auto simp: ascii_whitespace_def)
qed

lemma zero_prefix_has_no_magic:
  assumes "take 3 data = [CHR 0x00, CHR 0x00, CHR 0x00]"
  shows "\<forall>m\<in>set ALLOWED_MAGIC. take (length m) data \<noteq> m"
  using assms by (intro no_magic_of_first_byte) (cases data; auto)+

text \<open>
  Claim C10, as the code has it. The size check comes first, so an upload is refused with
  413 exactly when it is longer than 20 MiB (20 MiB itself passes the size check), and
  with 415 exactly when it is within the limit and starts with none of the seven
  prefixes. A RIFF-prefixed upload within the limit passes whatever follows the prefix.
  Every upload that the sniffer classifies as SVG is refused. An upload that the sniffer
  classifies as HEIC is refused when it starts with the three zero bytes that
  \<^verbatim>\<open>MAGIC_BYTES\<close> lists for HEIC (the high bytes of the \<^verbatim>\<open>ftyp\<close> box length).
\<close>

theorem validate_upload_statuses:
  "(validate_upload data = Inl (HTTPException 413) \<longleftrightarrow> length data > 20 * 1024 * 1024) \<and>
   (validate_upload data = Inl (HTTPException 415) \<longleftrightarrow>
      length data \<le> 20 * 1024 * 1024 \<and> (\<forall>m\<in>set ALLOWED_MAGIC. take (length m) data \<noteq> m)) \<and>
   (length data \<le> 20 * 1024 * 1024 \<and> take 4 data = ''RIFF'' \<longrightarrow> validate_upload data = Inr ()) \<and>
   (detect_format_header (take 32 data) = Some SVG \<longrightarrow> validate_upload data \<noteq> Inr ()) \<and>
   (detect_format_header (take 32 data) = Some HEIC \<and> take 3 data = [CHR 0x00, CHR 0x00, CHR 0x00]
      \<longrightarrow> validate_upload data \<noteq> Inr ())"
proof (intro conjI impI)
  show "validate_upload data = Inl (HTTPException 413) \<longleftrightarrow> length data > 20 * 1024 * 1024"
    by (simp add: validate_upload_def MAX_UPLOAD_def magic_loop_rejects)
  show "validate_upload data = Inl (HTTPException 415) \<longleftrightarrow>
      length data \<le> 20 * 1024 * 1024 \<and> (\<forall>m\<in>set ALLOWED_MAGIC. take (length m) data \<noteq> m)"
    by (auto simp add: validate_upload_def MAX_UPLOAD_def magic_loop_rejects)
  show "validate_upload data = Inr ()"
    if "length data \<le> 20 * 1024 * 1024 \<and> take 4 data = ''RIFF''"
  proof -
    have "length ''RIFF'' = 4" by simp
    then have "take (length ''RIFF'') data = ''RIFF''" using that by metis
    moreover have "''RIFF'' \<in> set ALLOWED_MAGIC" by (simp add: ALLOWED_MAGIC_def)
    ultimately have "magic_loop ALLOWED_MAGIC data = Inr ()"
      unfolding magic_loop_accepts by blast
    then show ?thesis using that by (simp add: validate_upload_def MAX_UPLOAD_def)
  qed
  show "validate_upload data \<noteq> Inr ()" if "detect_format_header (take 32 data) = Some SVG"
    using svg_has_no_magic[OF that] by (simp add: validate_upload_def magic_loop_accepts)
  show "validate_upload data \<noteq> Inr ()"
    if "detect_format_header (take 32 data) = Some HEIC
        \<and> take 3 data = [CHR 0x00, CHR 0x00, CHR 0x00]"
    using zero_prefix_has_no_magic[of data] that
    by (simp add: validate_upload_def magic_loop_accepts)
qed

text \<open>The theorem at three uploads: a RIFF container that is not WEBP, an SVG document
  with leading whitespace, and the HEIC header.\<close>

theorem validate_upload_statuses_witness:
  "validate_upload ''RIFFxxxxJUNK'' = Inr ()
   \<and> detect_format_header (take 32 '' <svg>'') = Some SVG
   \<and> validate_upload '' <svg>'' = Inl (HTTPException 415)
   \<and> detect_format_header (take 32 heic_sample) = Some HEIC
   \<and> validate_upload heic_sample = Inl (HTTPException 415)"
  using validate_upload_statuses[of "''RIFFxxxxJUNK''"]
    validate_upload_statuses[of "'' <svg>''"]
    validate_upload_statuses[of heic_sample]
  by (simp add: heic_sample_def detect_format_header_def slice_def png_signature_def
      heic_brands_def lstrip_def ascii_whitespace_def ALLOWED_MAGIC_def)

text \<open>
  Claim C10 as stated fails: twelve bytes that start with \<^verbatim>\<open>RIFF\<close> and carry an
  \<^verbatim>\<open>ftyp\<close> box of brand \<^verbatim>\<open>heic\<close> are HEIC for the sniffer, and the upload validator
  lets them through.
\<close>

theorem heic_upload_accepted_counterexample:
  "detect_format_header (take 32 ''RIFFftypheic'') = Some HEIC
   \<and> validate_upload ''RIFFftypheic'' = Inr ()"
  by (simp add: detect_format_header_def validate_upload_def ALLOWED_MAGIC_def MAX_UPLOAD_def
      slice_def png_signature_def heic_brands_def)

section \<open>Properties of format detection\<close>

lemma brand_slice_length:
  assumes "slice 8 12 h \<in> set heic_brands"
  shows "length h \<ge> 12"
proof -
  from assms have "length (slice 8 12 h) = 4" by (auto simp: heic_brands_def)
  then show ?thesis by (simp add: slice_def)
qed

lemma ftyp_box_test:
  "(12 \<le> length h \<and> slice 4 8 h = ''ftyp'' \<and> slice 8 12 h \<in> set heic_brands)
   = (slice 4 8 h = ''ftyp'' \<and> slice 8 12 h \<in> set heic_brands)"
  using brand_slice_length by blast

lemma starts_with_2: "starts_with [a, b] h = (take 2 h = [a, b])"
  by (simp add: starts_with_def eval_nat_numeral)

lemma starts_with_3: "starts_with [a, b, c] h = (take 3 h = [a, b, c])"
  by (simp add: starts_with_def eval_nat_numeral)

lemma starts_with_4: "starts_with [a, b, c, d] h = (take 4 h = [a, b, c, d])"
  by (simp add: starts_with_def eval_nat_numeral)

lemma starts_with_5: "starts_with [a, b, c, d, e] h = (take 5 h = [a, b, c, d, e])"
  by (simp add: starts_with_def eval_nat_numeral)

lemma starts_with_6: "starts_with [a, b, c, d, e, f] h = (take 6 h = [a, b, c, d, e, f])"
  by (simp add: starts_with_def eval_nat_numeral)

lemma starts_with_png: "starts_with png_signature h = (take 8 h = png_signature)"
  by (simp add: starts_with_def png_signature_def eval_nat_numeral)

lemma in_pair: "x \<in> set [a, b] = (x = a \<or> x = b)"
  by auto

lemma detect_format_header_table:
  "detect_format_header h = first_match (signature_table (\<lambda>h. svg_marker (lstrip h))) h"
  unfolding detect_format_header_def signature_table_def first_match.simps svg_marker_def
    starts_with_2 starts_with_3 starts_with_4 starts_with_5 starts_with_6 starts_with_png
    in_pair ftyp_box_test Let_def
  by (rule refl)

text \<open>
  Claim C3, as the code has it. The sniffer returns the tag of the first signature that
  matches, in the priority order JPEG, PNG, GIF87a/GIF89a, RIFF with WEBP at offset 8, BM,
  the two TIFF byte orders, an \<^verbatim>\<open>ftyp\<close> box with a brand of the fixed set, and last
  \<^verbatim>\<open><?xml\<close> or \<^verbatim>\<open><svg\<close> at the start of the header once its leading ASCII whitespace
  is skipped; with no match it returns \<open>None\<close>. On a path it classifies the first 32
  bytes of a readable regular file and returns \<open>None\<close> for everything else, so it has
  a result for every input.
\<close>

theorem detect_format_priority:
  "detect_format_header h = first_match (signature_table (\<lambda>h. svg_marker (lstrip h))) h
   \<and> detect_format fs p =
       (case fs p of
          Some (RegularFile True d) \<Rightarrow>
            first_match (signature_table (\<lambda>h. svg_marker (lstrip h))) (take 32 d)
        | _ \<Rightarrow> None)"
  by (simp add: detect_format_def detect_format_header_table
      split: option.split entry.split bool.split)

text \<open>
  Claim C3 as stated fails: for a header with a space before \<^verbatim>\<open><svg\<close> none of the
  listed signatures is at the start, so the specification's sniffer answers Unknown, and
  the code answers SVG.
\<close>

theorem svg_after_whitespace_counterexample:
  "detect_format_header '' <svg>'' = Some SVG \<and> sniffer_spec '' <svg>'' = None"
  by (simp add: detect_format_header_def sniffer_spec_def signature_table_def starts_with_def
      svg_marker_def png_signature_def Let_def slice_def heic_brands_def lstrip_def
      ascii_whitespace_def)

section \<open>Properties of input validation\<close>





section \<open>Properties of the batch runner\<close>













section \<open>Properties of output resolution\<close>

lemma split_sep_no_slash: "CHR ''/'' \<notin> set s \<Longrightarrow> split_sep s = [s]"
  by (induction s) auto

lemma Path_component:
  assumes "CHR ''/'' \<notin> set s" "s \<noteq> []" "s \<noteq> ''.''"
  shows "Path s = PurePath [] [s]"
proof -
  obtain c cs where s: "s = c # cs" using assms(2) by (cases s) auto
  with assms(1) have c: "c \<noteq> CHR ''/''" by auto
  have "anchor_of s = []" unfolding anchor_of_def s using c by simp
  then show ?thesis using assms by (simp add: Path_def split_sep_no_slash)
qed

lemma joinpath_component:
  assumes "CHR ''/'' \<notin> set s" "s \<noteq> []" "s \<noteq> ''.''"
  shows "joinpath p s = PurePath (anchor p) (parts p @ [s])"
proof -
  obtain c cs where s: "s = c # cs" using assms(2) by (cases s) auto
  with assms(1) have c: "c \<noteq> CHR ''/''" by auto
  have "take 1 s \<noteq> ''/''" unfolding s using c by simp
  then show ?thesis using Path_component[OF assms] by (simp add: joinpath_def)
qed

lemma dotted_eq:
  "(if take 1 e = ''.'' then e else ''.'' @ e) = ''.'' @ (if take 1 e = ''.'' then tl e else e)"
  by (cases e) simp_all

lemma extension_eq:
  "(let extension = (if given ext then the ext else suffix_of p) in 
     (if take 1 extension = ''.'' then extension else ''.'' @ extension)) = ''.'' @ bare_ext p ext"
  unfolding bare_ext_def Let_def by (rule dotted_eq)

lemma name_in_parts: "name p = [] \<or> name p \<in> set (parts p)"
  by (simp add: name_def)

lemma wf_path_component: "wf_path p \<Longrightarrow> c \<in> set (parts p) \<Longrightarrow> CHR ''/'' \<notin> set c"
  unfolding wf_path_def by blast

lemma wf_name: 
  assumes "wf_path p" shows "CHR ''/'' \<notin> set (name p)"
proof (cases "name p = []")
  case True
  then show ?thesis by simp
next
  case False
  then have "name p \<in> set (parts p)" using name_in_parts[of p] by blast
  then show ?thesis by (rule wf_path_component[OF assms])
qed

lemma stem_subset: "set (stem p) \<subseteq> set (name p)"
  unfolding stem_def by (cases "rfind (CHR ''.'') (name p)") (simp_all add: set_take_subset)

lemma suffix_subset: "set (suffix_of p) \<subseteq> set (name p)"
  unfolding suffix_of_def using set_drop_subset[of _ "name p"] by (cases "rfind (CHR ''.'') (name p)") auto

lemma bare_ext_subset: "set (bare_ext p ext) \<subseteq> set (if given ext then the ext else suffix_of p)"
proof -
  have "set (if take 1 e = ''.'' then tl e else e) \<subseteq> set e" for e :: string
    by (cases e) auto
  then show ?thesis unfolding bare_ext_def Let_def .
qed

lemma bare_ext_no_slash:
  assumes "wf_path p" "\<forall>e. ext = Some e \<longrightarrow> CHR ''/'' \<notin> set e"
  shows "CHR ''/'' \<notin> set (bare_ext p ext)"
proof -
  have "CHR ''/'' \<notin> set (if given ext then the ext else suffix_of p)"
  proof (cases "given ext")
    case True
    then obtain e where "ext = Some e" by (cases ext) auto
    then show ?thesis using assms(2) True by simp
  next
    case False
    then show ?thesis using wf_name[OF assms(1)] suffix_subset[of p] by auto
  qed
  then show ?thesis using bare_ext_subset[of p ext] by blast
qed

lemma synthesized_name_no_slash:
  assumes "wf_path p" "CHR ''/'' \<notin> set sfx" "\<forall>e. ext = Some e \<longrightarrow> CHR ''/'' \<notin> set e"
  shows "CHR ''/'' \<notin> set (synthesized_name p sfx ext)" 
proof -
  have "CHR ''/'' \<notin> set (stem p)" using wf_name[OF assms(1)] stem_subset[of p] by blast
  then show ?thesis
    using assms(2) bare_ext_no_slash[OF assms(1,3)] by (simp add: synthesized_name_def)
qed

lemma synthesized_name_not_empty: "synthesized_name p sfx ext \<noteq> []"
  by (simp add: synthesized_name_def)

lemma synthesized_name_not_dot: "synthesized_name p sfx ext \<noteq> ''.''"
proof
  assume "synthesized_name p sfx ext = ''.''"
  then have "length (synthesized_name p sfx ext) = 1" by simp
  then show False by (simp add: synthesized_name_def)
qed

lemma default_output_eq:
  assumes "wf_path p" "CHR ''/'' \<notin> set sfx" "\<forall>e. ext = Some e \<longrightarrow> CHR ''/'' \<notin> set e"
  shows "default_output p sfx ext = PurePath (anchor p) (butlast (parts p) @ [synthesized_name p sfx ext])"
proof -
  have "default_output p sfx ext = joinpath (parent p) (synthesized_name p sfx ext)"
    unfolding default_output_def synthesized_name_def extension_eq[of ext p, unfolded Let_def] Let_def
    by (rule refl)
  then show ?thesis
    using joinpath_component[OF synthesized_name_no_slash[OF assms] synthesized_name_not_empty synthesized_name_not_dot]
    by (simp add: parent_def)
qed

lemma resolve_output_shape:
  assumes "wf_path input_path" and "CHR ''/'' \<notin> set tool_suffix"
    and "\<forall>e. ext = Some e \<longrightarrow> CHR ''/'' \<notin> set e"
  shows "(given output_arg \<and> is_dir fs (Path (the output_arg)) \<longrightarrow>
            resolve_output fs input_path output_arg tool_suffix ext overwrite
            = Inr (PurePath (anchor (Path (the output_arg)))
                     (parts (Path (the output_arg)) @ [synthesized_name input_path tool_suffix ext]))) \<and>
         (given output_arg \<and> \<not> is_dir fs (Path (the output_arg)) \<longrightarrow>
            resolve_output fs input_path output_arg tool_suffix ext overwrite
            = Inr (Path (the output_arg))) \<and>
         (\<not> given output_arg \<longrightarrow>
            resolve_output fs input_path output_arg tool_suffix ext overwrite
            = (if PurePath (anchor input_path)
                    (butlast (parts input_path) @ [synthesized_name input_path tool_suffix ext])
                  = input_path \<and> \<not> overwrite
               then Inl (ValueError Would_overwrite)
               else Inr (PurePath (anchor input_path)
                    (butlast (parts input_path) @ [synthesized_name input_path tool_suffix ext]))))"
proof -
  note d = default_output_eq[OF assms]
  note j = joinpath_component[OF synthesized_name_no_slash[OF assms] synthesized_name_not_empty synthesized_name_not_dot]
  show ?thesis
    by (simp add: resolve_output_def Let_def d j name_def)
qed


text \<open>
  Claim C2, for an input path as \<open>Path\<close> builds them and a suffix and extension that are
  file-name fragments (no \<^verbatim>\<open>/\<close>). An output argument that names an existing directory
  resolves to that directory extended by the component \<^verbatim>\<open>{input-stem}_{suffix}.{ext}\<close>; any
  other non-empty output argument is returned as the path it denotes; without an output
  argument the result is the same file name beside the input, and the call raises
  \<^verbatim>\<open>ValueError\<close> (would overwrite) exactly when that path equals the input path and
  overwriting was not allowed.
\<close>

theorem resolve_output_cases:
  assumes "wf_path input_path" and "CHR ''/'' \<notin> set tool_suffix"
    and "\<forall>e. ext = Some e \<longrightarrow> CHR ''/'' \<notin> set e"
  shows "(given output_arg \<and> is_dir fs (Path (the output_arg)) \<longrightarrow>
            resolve_output fs input_path output_arg tool_suffix ext overwrite
            = Inr (PurePath (anchor (Path (the output_arg)))
                     (parts (Path (the output_arg)) @ [synthesized_name input_path tool_suffix ext]))) \<and>
         (given output_arg \<and> \<not> is_dir fs (Path (the output_arg)) \<longrightarrow>
            resolve_output fs input_path output_arg tool_suffix ext overwrite
            = Inr (Path (the output_arg))) \<and>
         (\<not> given output_arg \<longrightarrow>
            resolve_output fs input_path output_arg tool_suffix ext overwrite
            = (if PurePath (anchor input_path)
                    (butlast (parts input_path) @ [synthesized_name input_path tool_suffix ext])
                  = input_path \<and> \<not> overwrite
               then Inl (ValueError Would_overwrite)
               else Inr (PurePath (anchor input_path)
                    (butlast (parts input_path) @ [synthesized_name input_path tool_suffix ext]))))"
  using assms by (rule resolve_output_shape)

lemma path_photo: "Path ''photo.jpg'' = PurePath [] [''photo.jpg'']"
  by (simp add: Path_def anchor_of_def)

lemma path_out: "Path ''out'' = PurePath [] [''out'']"
  by (simp add: Path_def anchor_of_def)

lemma synthesized_name_photo:
  "synthesized_name (PurePath [] [''photo.jpg'']) ''resized'' None = ''photo_resized.jpg''"
  by (simp add: synthesized_name_def bare_ext_def stem_def suffix_of_def name_def rfind_def)

text \<open>The theorem at \<^verbatim>\<open>photo.jpg\<close> with suffix \<^verbatim>\<open>resized\<close>: no output argument, an
  output directory, and an explicit output file.\<close>

theorem resolve_output_cases_witness:
  "wf_path (Path ''photo.jpg'') \<and> CHR ''/'' \<notin> set ''resized''
   \<and> resolve_output Map.empty (Path ''photo.jpg'') None ''resized'' None False
       = Inr (PurePath [] [''photo_resized.jpg''])
   \<and> resolve_output (Map.empty(Path ''out'' \<mapsto> Directory)) (Path ''photo.jpg'') (Some ''out'')
         ''resized'' None False
       = Inr (PurePath [] [''out'', ''photo_resized.jpg''])
   \<and> resolve_output Map.empty (Path ''photo.jpg'') (Some ''out'') ''resized'' None False
       = Inr (Path ''out'')"
proof -
  have wf: "wf_path (Path ''photo.jpg'')" by (simp add: path_photo wf_path_def)
  have sfx: "CHR ''/'' \<notin> set ''resized''" by simp
  have ext: "\<forall>e. (None :: string option) = Some e \<longrightarrow> CHR ''/'' \<notin> set e" by simp
  note cases = resolve_output_cases[OF wf sfx ext]
  show ?thesis
    using wf cases[of None Map.empty False]
      cases[of "Some ''out''" "Map.empty(Path ''out'' \<mapsto> Directory)" False]
      cases[of "Some ''out''" Map.empty False]
    by (simp add: path_photo path_out synthesized_name_photo is_dir_def)
qed

lemma rfind_Some:
  assumes "rfind c s = Some i"
  shows "i < length s \<and> s ! i = c"
proof -
  from assms obtain x r where d: "dropWhile (\<lambda>x. x \<noteq> c) (rev s) = x # r" and i: "i = length r"
    by (auto simp: rfind_def split: list.splits)
  have "\<not> (hd (dropWhile (\<lambda>x. x \<noteq> c) (rev s)) \<noteq> c)"
    by (rule hd_dropWhile) (simp add: d)
  then have x: "x = c" by (simp add: d)
  have "rev s = takeWhile (\<lambda>x. x \<noteq> c) (rev s) @ x # r"
    using takeWhile_dropWhile_id[of "\<lambda>x. x \<noteq> c" "rev s"] d by simp
  then have "rev (rev s) = rev (takeWhile (\<lambda>x. x \<noteq> c) (rev s) @ x # r)" by simp
  then have s: "s = rev r @ x # rev (takeWhile (\<lambda>x. x \<noteq> c) (rev s))" by simp
  have "length (rev r) = i" by (simp add: i)
  then have "s ! i = x" by (subst s) (metis nth_append_length)
  moreover have "i < length s" by (subst s) (simp add: i)
  ultimately show ?thesis using x by simp
qed

lemma suffix_starts_with_dot: "suffix_of p = [] \<or> hd (suffix_of p) = CHR ''.''"
proof (cases "rfind (CHR ''.'') (name p)")
  case None
  then show ?thesis by (simp add: suffix_of_def)
next
  case (Some i)
  from rfind_Some[OF Some] have "i < length (name p)" "name p ! i = CHR ''.''" by auto
  then have "hd (drop i (name p)) = CHR ''.''" by (simp add: hd_drop_conv_nth)
  then show ?thesis by (simp add: suffix_of_def Some)
qed

lemma stem_suffix: "stem p @ suffix_of p = name p"
  by (cases "rfind (CHR ''.'') (name p)") (simp_all add: stem_def suffix_of_def)

lemma synthesized_name_fresh: "synthesized_name p sfx ext \<noteq> name p"
proof
  assume "synthesized_name p sfx ext = name p"
  then have "stem p @ (''_'' @ sfx @ ''.'' @ bare_ext p ext) = stem p @ suffix_of p"
    by (simp add: synthesized_name_def stem_suffix)
  then have e: "suffix_of p = CHR ''_'' # (sfx @ ''.'' @ bare_ext p ext)" by simp
  then have "hd (suffix_of p) = CHR ''_''" by simp
  moreover have "suffix_of p \<noteq> []" using e by simp
  ultimately show False using suffix_starts_with_dot[of p] by simp
qed

lemma synthesized_path_differs: "PurePath a (ps @ [synthesized_name p sfx ext]) \<noteq> p"
proof
  assume "PurePath a (ps @ [synthesized_name p sfx ext]) = p"
  then have "parts p = ps @ [synthesized_name p sfx ext]" by (cases p) auto
  then have "name p = synthesized_name p sfx ext" by (simp add: name_def)
  then show False using synthesized_name_fresh[of p sfx ext] by simp
qed

text \<open>
  Claim C8, as the code has it. Without an output argument and without permission to
  overwrite, the resolved path is never the input path. For an input path as \<open>Path\<close>
  builds them and a suffix and extension without \<^verbatim>\<open>/\<close>, a path resolved from no output
  argument or from an output directory is never the input path, whatever the overwrite
  flag. An explicit output file path is returned as given.
\<close>

theorem resolve_output_differs:
  "(\<not> given output_arg \<and> \<not> overwrite \<longrightarrow>
      resolve_output fs input_path output_arg tool_suffix ext overwrite \<noteq> Inr input_path) \<and>
   (wf_path input_path \<and> CHR ''/'' \<notin> set tool_suffix \<and> (\<forall>e. ext = Some e \<longrightarrow> CHR ''/'' \<notin> set e)
      \<and> (\<not> given output_arg \<or> is_dir fs (Path (the output_arg))) \<longrightarrow>
      resolve_output fs input_path output_arg tool_suffix ext overwrite \<noteq> Inr input_path) \<and>
   (given output_arg \<and> \<not> is_dir fs (Path (the output_arg)) \<longrightarrow>
      resolve_output fs input_path output_arg tool_suffix ext overwrite = Inr (Path (the output_arg)))"
proof (intro conjI impI)
  show "resolve_output fs input_path output_arg tool_suffix ext overwrite \<noteq> Inr input_path"
    if "\<not> given output_arg \<and> \<not> overwrite"
    using that by (simp add: resolve_output_def Let_def)
  show "resolve_output fs input_path output_arg tool_suffix ext overwrite \<noteq> Inr input_path"
    if h: "wf_path input_path \<and> CHR ''/'' \<notin> set tool_suffix \<and> (\<forall>e. ext = Some e \<longrightarrow> CHR ''/'' \<notin> set e)
      \<and> (\<not> given output_arg \<or> is_dir fs (Path (the output_arg)))"
  proof -
    from h have a: "wf_path input_path" "CHR ''/'' \<notin> set tool_suffix" "\<forall>e. ext = Some e \<longrightarrow> CHR ''/'' \<notin> set e"
      by blast+
    from h have c: "\<not> given output_arg \<or> is_dir fs (Path (the output_arg))" by blast
    note r = resolve_output_shape[OF a, of output_arg fs overwrite]
    show ?thesis
    proof (cases "given output_arg")
      case True
      with c r show ?thesis using synthesized_path_differs by simp
    next
      case False
      with r show ?thesis using synthesized_path_differs by simp
    qed
  qed
  show "resolve_output fs input_path output_arg tool_suffix ext overwrite = Inr (Path (the output_arg))"
    if "given output_arg \<and> \<not> is_dir fs (Path (the output_arg))"
    using that by (simp add: resolve_output_def Let_def)
qed

text \<open>The theorem at \<^verbatim>\<open>photo.jpg\<close>, without an output argument and with an output
  directory.\<close>

theorem resolve_output_differs_witness:
  "resolve_output Map.empty (Path ''photo.jpg'') None ''resized'' None False
     \<noteq> Inr (Path ''photo.jpg'')
   \<and> resolve_output (Map.empty(Path ''out'' \<mapsto> Directory)) (Path ''photo.jpg'') (Some ''out'')
        ''resized'' None True
     \<noteq> Inr (Path ''photo.jpg'')
   \<and> resolve_output Map.empty (Path ''photo.jpg'') (Some ''out'') ''resized'' None False
     = Inr (Path ''out'')"
proof -
  have wf: "wf_path (Path ''photo.jpg'')" by (simp add: path_photo wf_path_def)
  show ?thesis
    using wf resolve_output_differs[of None False Map.empty "Path ''photo.jpg''" "''resized''" None]
      resolve_output_differs[of "Some ''out''" True "Map.empty(Path ''out'' \<mapsto> Directory)"
        "Path ''photo.jpg''" "''resized''" None]
      resolve_output_differs[of "Some ''out''" False Map.empty "Path ''photo.jpg''"
        "''resized''" None]
    by (simp add: is_dir_def)
qed

text \<open>
  Claim C8 as stated fails: an explicit output argument that names the input file is
  returned as it is, with no permission to overwrite.
\<close>

theorem explicit_output_equals_input_counterexample:
  "resolve_output fs_one (Path ''a.jpg'') (Some ''a.jpg'') ''compressed'' None False
     = Inr (Path ''a.jpg'')"
  by (simp add: resolve_output_def Let_def is_dir_def fs_one_def)

section \<open>Properties of resize\<close>

text \<open>
  Claim C7 at three inputs. A 1000 by 500 image resized by 50 percent becomes 500 by 250,
  and with \<^verbatim>\<open>max_size=100\<close> it becomes 100 by 50. A 161 by 100 image with
  \<^verbatim>\<open>max_size=100\<close> has ratio \<open>100 / 161 < 1\<close>; the float product \<open>161 * ratio\<close> is just
  below 100 and \<^verbatim>\<open>int\<close> truncates it, so the larger side of the result is 99, not 100.
  Rounding the same product to the nearest integer, as \<^verbatim>\<open>upscale.py\<close> does, gives 100.
\<close>

theorem resize_max_size_truncates:
  "resize_new_size (1000, 500) None None (Some 50) None = Inr (500, 250)
   \<and> resize_new_size (1000, 500) None None None (Some 100) = Inr (100, 50)
   \<and> resize_new_size (161, 100) None None None (Some 100) = Inr (99, 62)
   \<and> fl (100 / 161) < 1
   \<and> round (fl (161 * fl (100 / 161))) = 100"
  by code_simp

section \<open>Properties of the staging files\<close>

lemma guess_ext_photo: "guess_ext (Some ''photo.JPG'') = ''.jpg''"
  by code_simp

lemma validate_upload_jpeg_small: "validate_upload jpeg_small = Inr ()"
  by (simp add: validate_upload_def jpeg_small_def MAX_UPLOAD_def ALLOWED_MAGIC_def)

text \<open>
  Claim C9 at one request, a small JPEG uploaded as \<^verbatim>\<open>photo.JPG\<close> into an empty temporary
  directory. When processing raises, both staged files are gone afterwards. When
  processing succeeds, the staged input is gone and the staged output is still there when
  the handler has returned; nothing deletes it later.
\<close>

theorem api_compress_leaves_output:
  "api_compress (\<lambda>inp out. None) \<lparr>present = [], serial = 0\<rparr> jpeg_small (Some ''photo.JPG'')
     = (Inr (FileResponse (1, ''.jpg'') ''compressed''),
        \<lparr>present = [(1, ''.jpg'')], serial = 2\<rparr>)
   \<and> api_compress (\<lambda>inp out. Some (ProcessingError ''cannot identify image file''))
        \<lparr>present = [], serial = 0\<rparr> jpeg_small (Some ''photo.JPG'')
     = (Inl (HTTPException 500), \<lparr>present = [], serial = 2\<rparr>)"
  by (simp add: api_compress_def validate_upload_jpeg_small guess_ext_photo save_upload_def
      output_path_def mkstemp_def unlink_def Let_def numeral_2_eq_2)

section \<open>Properties of the edit pipeline\<close>

lemma process_single_fold:
  "process_single lib decoded out_path kwargs
     = foldl and_then (open_stage lib decoded) (map snd (pipeline lib out_path kwargs))"
  by (simp add: process_single_def pipeline_def)

lemma and_then_failed: "and_then (Inl e, tr) f = (Inl e, tr)"
  by (simp add: and_then_def)

lemma foldl_and_then_failed: "foldl and_then (Inl e, tr) fs = (Inl e, tr)"
  by (induction fs) (simp_all add: and_then_failed)

lemma and_then_trace:
  assumes "logs_only st f"
  shows "\<exists>ext. snd (and_then r f) = snd r @ ext \<and> fst ` set ext \<subseteq> {st}"
proof (cases r)
  case (Pair res tr)
  show ?thesis
  proof (cases res)
    case (Inl e)
    then show ?thesis using Pair by (simp add: and_then_def)
  next
    case (Inr img)
    from assms obtain ext where "snd (f img tr) = tr @ ext" "fst ` set ext \<subseteq> {st}"
      unfolding logs_only_def by blast
    then show ?thesis using Pair Inr by (auto simp: and_then_def)
  qed
qed

lemma fold_sorted:
  assumes "\<forall>p\<in>set steps. logs_only (fst p) (snd p)"
    and "sorted (map (\<lambda>e. rank (fst e)) steps)"
    and "sorted (map (\<lambda>e. rank (fst e)) (snd r))"
    and "\<forall>e\<in>set (snd r). \<forall>p\<in>set steps. rank (fst e) \<le> rank (fst p)"
  shows "sorted (map (\<lambda>e. rank (fst e)) (snd (foldl and_then r (map snd steps))))"
  using assms
proof (induction steps arbitrary: r)
  case Nil
  then show ?case by simp
next
  case (Cons p steps)
  from Cons.prems(1) have lp: "logs_only (fst p) (snd p)" by simp
  from and_then_trace[OF lp, of r] obtain ext where
    ext: "snd (and_then r (snd p)) = snd r @ ext" "fst ` set ext \<subseteq> {fst p}" by blast
  have ext_rank: "\<forall>e\<in>set ext. rank (fst e) = rank (fst p)" using ext(2) by auto
  have s1: "sorted (map (\<lambda>e. rank (fst e)) (snd (and_then r (snd p))))"
  proof -
    have "sorted (map (\<lambda>e. rank (fst e)) ext)"
      using ext_rank by (induction ext) (auto)
    moreover have "\<forall>a\<in>set (snd r). \<forall>b\<in>set ext. rank (fst a) \<le> rank (fst b)"
      using Cons.prems(4) ext_rank by simp
    ultimately show ?thesis using Cons.prems(3) by (simp add: ext(1) sorted_append)
  qed
  have s2: "\<forall>e\<in>set (snd (and_then r (snd p))). \<forall>q\<in>set steps. rank (fst e) \<le> rank (fst q)"
  proof (intro ballI)
    fix e q assume e: "e \<in> set (snd (and_then r (snd p)))" and q: "q \<in> set steps"
    from e have "e \<in> set (snd r) \<or> e \<in> set ext" by (simp add: ext(1))
    then show "rank (fst e) \<le> rank (fst q)"
    proof
      assume "e \<in> set (snd r)" then show ?thesis using Cons.prems(4) q by simp
    next
      assume "e \<in> set ext"
      then have "rank (fst e) = rank (fst p)" using ext_rank by simp
      moreover have "rank (fst p) \<le> rank (fst q)" using Cons.prems(2) q by simp
      ultimately show ?thesis by simp
    qed
  qed
  have "sorted (map (\<lambda>e. rank (fst e)) (snd (foldl and_then (and_then r (snd p)) (map snd steps))))"
    using Cons.IH[of "and_then r (snd p)"] Cons.prems(1,2) s1 s2 by simp
  then show ?case by simp
qed

lemma logs_onlyI:
  assumes "\<And>img tr. \<exists>ext. snd (f img tr) = tr @ ext \<and> fst ` set ext \<subseteq> {st}"
  shows "logs_only st f"
  using assms unfolding logs_only_def by blast

lemma logs_only_optional:
  assumes "\<And>v. logs_only st (\<lambda>img. f img v)"
  shows "logs_only st (optional arg f)"
proof (cases arg)
  case None
  show ?thesis by (rule logs_onlyI) (simp add: optional_def None)
next
  case (Some v)
  from assms[of v] show ?thesis unfolding logs_only_def by (simp add: optional_def Some)
qed

lemma logs_only_enhancement: "logs_only st (\<lambda>img. apply_enhancement st nm kind lib img v)"
  by (rule logs_onlyI) (simp add: apply_enhancement_def clamp_def)

lemma logs_only_hue: "logs_only Hue_stage (\<lambda>img. apply_hue lib img v)"
  by (rule logs_onlyI) (simp add: apply_hue_def clamp_def)

lemma logs_only_filter: "logs_only Filter_stage (\<lambda>img. apply_filter lib img v)"
  by (rule logs_onlyI) (simp add: apply_filter_def)

lemma logs_only_flip: "logs_only Flip_stage (\<lambda>img. apply_flip lib img v)"
  by (rule logs_onlyI) (simp add: apply_flip_def)

lemma logs_only_auto:
  "logs_only Auto_enhance_stage
     (\<lambda>img tr. if b then apply_auto_enhance lib img tr else (Inr img, tr))"
  by (rule logs_onlyI) (simp add: apply_auto_enhance_def)

lemma logs_only_border: "logs_only Border_stage (\<lambda>img. apply_border lib img v c)"
  by (rule logs_onlyI) (simp add: apply_border_def clamp_def split: sum.split)

lemma logs_only_frame: "logs_only Frame_stage (\<lambda>img. apply_frame lib img v)"
  by (rule logs_onlyI) (simp add: apply_frame_def)

lemma logs_only_thumbnail: "logs_only Thumbnail_stage (\<lambda>img. apply_thumbnail lib img v)"
  by (rule logs_onlyI) (simp add: apply_thumbnail_def clamp_def Let_def split: sum.split)

lemma logs_only_save: "logs_only Saving (save_stage lib out_path)"
  by (rule logs_onlyI) (simp add: save_stage_def write_image_def split: sum.split option.split)

lemma pipeline_logs: "\<forall>p\<in>set (pipeline lib out_path kwargs). logs_only (fst p) (snd p)"
  unfolding pipeline_def
  by (simp add: logs_only_auto logs_only_save logs_only_optional logs_only_enhancement[unfolded atomize_eq]
      apply_brightness_def apply_contrast_def apply_saturation_def apply_sharpness_def
      logs_only_hue logs_only_filter logs_only_flip logs_only_border logs_only_frame logs_only_thumbnail)

lemma pipeline_stages:
  "map fst (pipeline lib out_path kwargs) =
     [Auto_enhance_stage, Brightness_stage, Contrast_stage, Saturation_stage, Sharpness_stage,
      Hue_stage, Filter_stage, Flip_stage, Border_stage, Frame_stage, Thumbnail_stage, Saving]"
  by (simp add: pipeline_def)

lemma pipeline_sorted: "sorted (map (\<lambda>e. rank (fst e)) (pipeline lib out_path kwargs))"
proof -
  have "map (\<lambda>e. rank (fst e)) (pipeline lib out_path kwargs) = map rank (map fst (pipeline lib out_path kwargs))"
    by simp
  also have "\<dots> = [1,2,3,4,5,6,7,8,9,10,11,12]" unfolding pipeline_stages by simp
  finally show ?thesis by simp
qed

lemma open_stage_trace: "fst ` set (snd (open_stage lib decoded)) = {Opening}"
  by (simp add: open_stage_def)

lemma trace_sorted: "sorted (map (\<lambda>e. rank (fst e)) (snd (process_single lib decoded out_path kwargs)))"
  unfolding process_single_fold
proof (rule fold_sorted[OF pipeline_logs pipeline_sorted])
  show "sorted (map (\<lambda>e. rank (fst e)) (snd (open_stage lib decoded)))"
    by (simp add: open_stage_def)
  show "\<forall>e\<in>set (snd (open_stage lib decoded)). \<forall>p\<in>set (pipeline lib out_path kwargs). rank (fst e) \<le> rank (fst p)"
  proof (intro ballI)
    fix e :: "stage \<times> call" and p :: "stage \<times> (image \<Rightarrow> trace \<Rightarrow> outcome)"
    assume "e \<in> set (snd (open_stage lib decoded))"
    then have "fst e = Opening" using open_stage_trace[of lib decoded] by auto
    then show "rank (fst e) \<le> rank (fst p)" by simp
  qed
qed

lemma same_key_same_entry:
  assumes "distinct (map key kw)" "a \<in> set kw" "b \<in> set kw" "key a = key b"
  shows "a = b"
proof -
  from assms(1) have "inj_on key (set kw)" by (simp add: distinct_map)
  then show ?thesis using assms(2-4) by (meson inj_onD)
qed

lemma kwargs_get_set:
  assumes "distinct (map key kw)" "distinct (map key kw')" "set kw' = set kw"
  shows "kwargs_get kw' k = kwargs_get kw k"
proof (cases "kwargs_get kw k")
  case None
  then have "\<not> (\<exists>a\<in>set kw. key a = k)" by (simp add: kwargs_get_def find_None_iff)
  then have "\<not> (\<exists>a\<in>set kw'. key a = k)" using assms(3) by simp
  then have "kwargs_get kw' k = None" by (simp add: kwargs_get_def find_None_iff)
  then show ?thesis using None by simp
next
  case (Some a)
  then have a: "a \<in> set kw" "key a = k"
    by (auto simp: kwargs_get_def find_Some_iff)
  then have "\<exists>b\<in>set kw'. key b = k" using assms(3) by auto
  then obtain b where b: "kwargs_get kw' k = Some b"
    by (cases "kwargs_get kw' k") (auto simp: kwargs_get_def find_None_iff)
  then have "b \<in> set kw'" "key b = k" by (auto simp: kwargs_get_def find_Some_iff)
  then have "b = a" using same_key_same_entry[OF assms(1), of b a] a assms(3) by simp
  then show ?thesis using Some b by simp
qed

lemma process_single_kwargs_get:
  assumes "\<And>k. kwargs_get kw' k = kwargs_get kw k"
  shows "process_single lib decoded out_path kw' = process_single lib decoded out_path kw"
  by (simp add: process_single_def get_auto_enhance_def get_factor_def get_name_def get_size_def
      get_border_color_def assms)

lemma process_single_order_free:
  assumes "distinct (map key kw)" "distinct (map key kw')" "set kw' = set kw"
  shows "process_single lib decoded out_path kw' = process_single lib decoded out_path kw"
  by (rule process_single_kwargs_get) (rule kwargs_get_set[OF assms])

lemma parse_white: "parse_color (Some ''white'') = Inr ''white''"
  by (simp add: parse_color_def strip_def str_whitespace_def)

lemma and_then_ok: "and_then (Inr img, tr) f = f img tr"
  by (simp add: and_then_def)

lemma and_then_unit: "and_then r (\<lambda>img tr. (Inr img, tr)) = r"
  by (simp add: and_then_def split: prod.split sum.split)

lemma optional_None: "optional None f = (\<lambda>img tr. (Inr img, tr))"
  by (rule ext)+ (simp add: optional_def)

lemma optional_Some: "optional (Some v) f = (\<lambda>img. f img v)"
  by (rule ext)+ (simp add: optional_def)

lemma and_then_returns:
  assumes "fst (and_then r f) = Inr result"
  shows "\<exists>img tr. r = (Inr img, tr) \<and> fst (f img tr) = Inr result"
proof (cases r)
  case (Pair res tr)
  then show ?thesis using assms by (cases res) (simp_all add: and_then_def)
qed

lemma convert_same: "mode img = m \<Longrightarrow> convert lib m img = Inr img"
  by (simp add: convert_def)

lemma convert_result:
  assumes "convert lib m img = Inr r"
  shows "mode r = m" "width r = width img" "height r = height img"
  using assms by (auto simp: convert_def split: if_splits sum.splits)

lemma resize_result:
  assumes "resize lib (w, h) img = Inr r"
  shows "width r = w" "height r = h" "mode r = mode img"
  using assms by (auto simp: resize_def split: if_splits sum.splits)

lemma resize_same: "width img = w \<Longrightarrow> height img = h \<Longrightarrow> resize lib (w, h) img = Inr img"
  by (simp add: resize_def)

lemma crop_mode: "mode (crop box img) = mode img"
  by (cases box) (simp add: crop_def)

lemma center_square_mode: "mode (center_square img) = mode img"
  by (simp add: center_square_def Let_def crop_mode)

lemma center_square_of_square:
  assumes "width img = height img"
  shows "center_square img = img"
  using assms by (simp add: center_square_def Let_def crop_def)

lemma expand_result:
  assumes "expand lib b fill img = Inr bordered"
  shows "mode bordered = mode img" "width bordered = width img + 2 * b"
    "height bordered = height img + 2 * b"
  using assms by (auto simp: expand_def split: sum.splits)

lemma corner_is_border:
  assumes "expand lib b fill img = Inr bordered" "b > 0"
  shows "getcolor lib fill (mode img) = Inr (pix (center_square bordered) 0 0)"
proof -
  from assms(1) obtain color where c: "getcolor lib fill (mode img) = Inr color"
    and e: "bordered = img\<lparr>width := width img + 2 * b, height := height img + 2 * b,
                   transparency := False,
                   pix := (\<lambda>x y. if b \<le> x \<and> x < b + width img
                                    \<and> b \<le> y \<and> y < b + height img
                                 then pix img (x - b) (y - b)
                                 else color)\<rparr>"
    by (auto simp: expand_def split: sum.splits)
  let ?short = "min (width bordered) (height bordered)"
  have "(width bordered - ?short) div 2 = 0 \<or> (height bordered - ?short) div 2 = 0"
    by (cases "width bordered \<le> height bordered") (simp_all add: min_def)
  then have "pix (center_square bordered) 0 0 = color" using assms(2)
    by (auto simp: center_square_def Let_def crop_def e)
  then show ?thesis using c by simp
qed

lemma thumbnail_size:
  assumes "fst (apply_thumbnail lib img s tr) = Inr r"
  shows "width r = s \<and> height r = s"
proof -
  from assms obtain img1 box where "resize lib (s, s) (crop box img1) = Inr r"
    by (auto simp: apply_thumbnail_def Let_def split: sum.splits)
  then show ?thesis using resize_result(1,2) by blast
qed

lemma write_image_result:
  assumes "fst (write_image lib out_path options img tr) = Inr r"
  shows "r = img \<and> save lib img out_path options = None"
  using assms by (auto simp: write_image_def split: option.splits)

lemma save_size:
  assumes "fst (save_stage lib out_path img tr) = Inr r"
  shows "width r = width img \<and> height r = height img"
  using assms
  by (auto simp: save_stage_def dest!: write_image_result split: if_splits sum.splits)

lemma save_rgb:
  "mode img = ''RGB'' \<Longrightarrow>
     fst (save_stage lib out_path img tr)
       = (case save lib img out_path [Quality 95] of Some e \<Rightarrow> Inl e | None \<Rightarrow> Inr img)"
  by (simp add: save_stage_def write_image_def split: option.split)

lemma process_single_tail:
  "\<exists>r. process_single lib decoded out_path kwargs
     = and_then (and_then r (optional (get_size kwargs ''thumbnail'') (apply_thumbnail lib)))
         (save_stage lib out_path)"
  unfolding process_single_def by (rule exI) (rule refl)

lemma thumbnail_result_size:
  assumes "get_size kwargs ''thumbnail'' = Some s"
    and "fst (process_single lib decoded out_path kwargs) = Inr result"
  shows "width result = s \<and> height result = s"
proof -
  obtain r where p: "process_single lib decoded out_path kwargs
     = and_then (and_then r (optional (get_size kwargs ''thumbnail'') (apply_thumbnail lib)))
         (save_stage lib out_path)"
    using process_single_tail by blast
  from assms(2) obtain thumb tr where
    t: "and_then r (optional (get_size kwargs ''thumbnail'') (apply_thumbnail lib)) = (Inr thumb, tr)"
    and s: "fst (save_stage lib out_path thumb tr) = Inr result"
    unfolding p using and_then_returns by blast
  from t have "fst (and_then r (optional (get_size kwargs ''thumbnail'') (apply_thumbnail lib))) = Inr thumb"
    by simp
  then obtain img tr0 where
    "fst (optional (get_size kwargs ''thumbnail'') (apply_thumbnail lib) img tr0) = Inr thumb"
    using and_then_returns by blast
  then have "fst (apply_thumbnail lib img s tr0) = Inr thumb"
    by (simp add: optional_def assms(1))
  then have "width thumb = s \<and> height thumb = s" by (rule thumbnail_size)
  then show ?thesis using save_size[OF s] by simp
qed

lemma border_thumbnail_only:
  assumes "\<not> get_auto_enhance kw" "\<forall>k. get_factor kw k = None" "\<forall>k. get_name kw k = None"
    and "get_size kw ''border'' = Some 10" "get_size kw ''thumbnail'' = Some 100"
    and rgb: "mode decoded = ''RGB''"
  shows "fst (process_single lib decoded out_path kw)
     = (case parse_color (get_border_color kw) of
          Inl e \<Rightarrow> Inl e
        | Inr c \<Rightarrow>
           (case expand lib 10 c decoded of
              Inl e \<Rightarrow> Inl e
            | Inr bordered \<Rightarrow>
               (case resize lib (100, 100) (center_square bordered) of
                  Inl e \<Rightarrow> Inl e
                | Inr thumb \<Rightarrow>
                   (case save lib thumb out_path [Quality 95] of
                      Some e \<Rightarrow> Inl e
                    | None \<Rightarrow> Inr thumb))))"
proof -
  let ?tr = "[(Opening, Open)]"
  have o: "open_stage lib decoded = (Inr decoded, ?tr)" using rgb by (simp add: open_stage_def)
  have p: "process_single lib decoded out_path kw
     = and_then (and_then (apply_border lib decoded 10 (get_border_color kw) ?tr)
                   (\<lambda>img. apply_thumbnail lib img 100)) (save_stage lib out_path)"
    by (simp add: process_single_def assms(1-5) o and_then_ok optional_None optional_Some
        and_then_unit)
  show ?thesis
  proof (cases "parse_color (get_border_color kw)")
    case (Inl e)
    then show ?thesis by (simp add: p apply_border_def clamp_def and_then_def)
  next
    case c: (Inr c)
    let ?tr1 = "[(Opening, Open), (Border_stage, Expand 10 c)]"
    have b: "apply_border lib decoded 10 (get_border_color kw) ?tr = (expand lib 10 c decoded, ?tr1)"
      by (simp add: apply_border_def clamp_def c)
    show ?thesis
    proof (cases "expand lib 10 c decoded")
      case (Inl e)
      then show ?thesis by (simp add: p b c and_then_def)
    next
      case e: (Inr bordered)
      have mb: "mode bordered = ''RGB''" using expand_result(1)[OF e] rgb by simp
      obtain tr2 where t: "apply_thumbnail lib bordered 100 ?tr1
          = (resize lib (100, 100) (center_square bordered), tr2)"
        by (simp add: apply_thumbnail_def clamp_def convert_same[OF mb] center_square_def Let_def)
      show ?thesis
      proof (cases "resize lib (100, 100) (center_square bordered)")
        case (Inl e')
        then show ?thesis by (simp add: p b c e t and_then_def)
      next
        case r: (Inr thumb)
        have mt: "mode thumb = ''RGB''"
          using resize_result(3)[OF r] mb by (simp add: center_square_mode)
        have "fst (process_single lib decoded out_path kw) = fst (save_stage lib out_path thumb tr2)"
          by (simp add: p b e t r and_then_def)
        then show ?thesis by (simp add: c e r save_rgb[OF mt])
      qed
    qed
  qed
qed

text \<open>
  Claim C1, as the code has it. \<open>process_single\<close> is the fold of the twelve steps of the
  pipeline over the opened image, in the order auto-enhance, brightness, contrast,
  saturation, sharpness, hue, filter, flip, border, frame, thumbnail, save; the library
  calls it makes are logged in that order, whatever the order of the keyword arguments.
  With a thumbnail size of 100, the image that the edit saves, when it returns, is 100 by
  100. With border 10 and thumbnail 100 and nothing else on an RGB input, the edit raises
  what the colour parser, the colour lookup of the border, the resampling or the save
  raises, and otherwise saves the resampled centre square of the bordered image. The
  thumbnail is cut from the bordered image: the top-left pixel of the centre square is a
  border pixel, for a square input the centre square is the whole bordered image, and
  for an input of 80 by 80 the resampling returns the bordered image as it is.
\<close>

theorem edit_pipeline_order:
  "process_single lib decoded out_path kwargs
     = foldl and_then (open_stage lib decoded) (map snd (pipeline lib out_path kwargs))
   \<and> map fst (pipeline lib out_path kwargs) =
       [Auto_enhance_stage, Brightness_stage, Contrast_stage, Saturation_stage, Sharpness_stage,
        Hue_stage, Filter_stage, Flip_stage, Border_stage, Frame_stage, Thumbnail_stage, Saving]
   \<and> sorted (map (\<lambda>e. rank (fst e)) (snd (process_single lib decoded out_path kwargs)))
   \<and> (distinct (map key kwargs) \<and> distinct (map key kwargs') \<and> set kwargs' = set kwargs \<longrightarrow>
        process_single lib decoded out_path kwargs' = process_single lib decoded out_path kwargs)
   \<and> (get_size kwargs ''thumbnail'' = Some 100
        \<and> fst (process_single lib decoded out_path kwargs) = Inr result \<longrightarrow>
        width result = 100 \<and> height result = 100)
   \<and> (\<not> get_auto_enhance kwargs \<and> (\<forall>k. get_factor kwargs k = None) \<and> (\<forall>k. get_name kwargs k = None)
        \<and> get_size kwargs ''border'' = Some 10 \<and> get_size kwargs ''thumbnail'' = Some 100
        \<and> mode decoded = ''RGB'' \<longrightarrow>
        fst (process_single lib decoded out_path kwargs)
          = (case parse_color (get_border_color kwargs) of
               Inl e \<Rightarrow> Inl e
             | Inr c \<Rightarrow>
                (case expand lib 10 c decoded of
                   Inl e \<Rightarrow> Inl e
                 | Inr bordered \<Rightarrow>
                    (case resize lib (100, 100) (center_square bordered) of
                       Inl e \<Rightarrow> Inl e
                     | Inr thumb \<Rightarrow>
                        (case save lib thumb out_path [Quality 95] of
                           Some e \<Rightarrow> Inl e
                         | None \<Rightarrow> Inr thumb)))))
   \<and> (expand lib 10 color decoded = Inr bordered \<longrightarrow>
        getcolor lib color (mode decoded) = Inr (pix (center_square bordered) 0 0)
        \<and> (width decoded = height decoded \<longrightarrow> center_square bordered = bordered)
        \<and> (width decoded = 80 \<and> height decoded = 80 \<longrightarrow>
             resize lib (100, 100) (center_square bordered) = Inr bordered))"
proof (intro conjI impI)
  show "process_single lib decoded out_path kwargs
     = foldl and_then (open_stage lib decoded) (map snd (pipeline lib out_path kwargs))"
    by (rule process_single_fold)
  show "map fst (pipeline lib out_path kwargs) =
       [Auto_enhance_stage, Brightness_stage, Contrast_stage, Saturation_stage, Sharpness_stage,
        Hue_stage, Filter_stage, Flip_stage, Border_stage, Frame_stage, Thumbnail_stage, Saving]"
    by (rule pipeline_stages)
  show "sorted (map (\<lambda>e. rank (fst e)) (snd (process_single lib decoded out_path kwargs)))"
    by (rule trace_sorted)
  show "process_single lib decoded out_path kwargs' = process_single lib decoded out_path kwargs"
    if "distinct (map key kwargs) \<and> distinct (map key kwargs') \<and> set kwargs' = set kwargs"
    using that by (intro process_single_order_free) simp_all
  show "width result = 100" "height result = 100"
    if "get_size kwargs ''thumbnail'' = Some 100
        \<and> fst (process_single lib decoded out_path kwargs) = Inr result"
    using that thumbnail_result_size[of kwargs 100 lib decoded out_path result] by simp_all
  show "fst (process_single lib decoded out_path kwargs)
          = (case parse_color (get_border_color kwargs) of
               Inl e \<Rightarrow> Inl e
             | Inr c \<Rightarrow>
                (case expand lib 10 c decoded of
                   Inl e \<Rightarrow> Inl e
                 | Inr bordered \<Rightarrow>
                    (case resize lib (100, 100) (center_square bordered) of
                       Inl e \<Rightarrow> Inl e
                     | Inr thumb \<Rightarrow>
                        (case save lib thumb out_path [Quality 95] of
                           Some e \<Rightarrow> Inl e
                         | None \<Rightarrow> Inr thumb))))"
    if "\<not> get_auto_enhance kwargs \<and> (\<forall>k. get_factor kwargs k = None) \<and> (\<forall>k. get_name kwargs k = None)
        \<and> get_size kwargs ''border'' = Some 10 \<and> get_size kwargs ''thumbnail'' = Some 100
        \<and> mode decoded = ''RGB''"
    using that by (intro border_thumbnail_only) simp_all
next
  assume e: "expand lib 10 color decoded = Inr bordered"
  show "getcolor lib color (mode decoded) = Inr (pix (center_square bordered) 0 0)"
    using corner_is_border[OF e] by simp
  show sq: "center_square bordered = bordered" if "width decoded = height decoded"
    using that expand_result(2,3)[OF e] by (intro center_square_of_square) simp
  show "resize lib (100, 100) (center_square bordered) = Inr bordered"
    if "width decoded = 80 \<and> height decoded = 80"
    using that expand_result(2,3)[OF e] sq by (simp add: resize_same)
qed

lemma expand_black_80: "expand plain_library 10 ''white'' black_80 = Inr bordered_80"
  by (simp add: expand_def plain_library_def black_80_def bordered_80_def cong: if_cong)

lemma suffix_out_png: "map lower_char (suffix_of (Path ''out.png'')) = ''.png''"
  by code_simp

lemma save_out_png: "save plain_library img (Path ''out.png'') options = None"
  by (simp add: plain_library_def suffix_out_png SUPPORTED_WRITE_def)

lemma border_thumbnail_args:
  "\<not> get_auto_enhance [Border (Some 10), Thumbnail (Some 100)]"
  "\<forall>k. get_factor [Border (Some 10), Thumbnail (Some 100)] k = None"
  "\<forall>k. get_name [Border (Some 10), Thumbnail (Some 100)] k = None"
  "get_size [Border (Some 10), Thumbnail (Some 100)] ''border'' = Some 10"
  "get_size [Border (Some 10), Thumbnail (Some 100)] ''thumbnail'' = Some 100"
  "parse_color (get_border_color [Border (Some 10), Thumbnail (Some 100)]) = Inr ''white''"
  by (simp_all add: get_auto_enhance_def get_factor_def get_name_def get_size_def
      get_border_color_def kwargs_get_def parse_white)

lemma plain_form:
  "fst (process_single plain_library black_80 (Path ''out.png'')
          [Border (Some 10), Thumbnail (Some 100)]) = Inr bordered_80"
proof -
  have rgb: "mode black_80 = ''RGB''" by (simp add: black_80_def)
  have sq: "center_square bordered_80 = bordered_80"
    by (rule center_square_of_square) (simp add: bordered_80_def)
  have rs: "resize plain_library (100, 100) bordered_80 = Inr bordered_80"
    by (rule resize_same) (simp_all add: bordered_80_def)
  show ?thesis
    by (subst border_thumbnail_only[OF border_thumbnail_args(1-5) rgb])
       (simp add: border_thumbnail_args(6) expand_black_80 sq rs save_out_png)
qed

text \<open>
  Claim C1 as stated fails. For a black image of 80 by 80 pixels, border 10 gives 100 by
  100; the centre square is the whole bordered image and resizing to its own size returns
  a copy. The result is 100 by 100 with the white border still on its edges.
\<close>

theorem border_survives_thumbnail_counterexample:
  "result_size (process_single plain_library black_80 (Path ''out.png'')
       [Border (Some 10), Thumbnail (Some 100)]) = Inr (100, 100)
   \<and> result_pixel (process_single plain_library black_80 (Path ''out.png'')
       [Border (Some 10), Thumbnail (Some 100)]) 0 0 = Inr [255, 255, 255]
   \<and> result_pixel (process_single plain_library black_80 (Path ''out.png'')
       [Border (Some 10), Thumbnail (Some 100)]) 99 50 = Inr [255, 255, 255]
   \<and> result_pixel (process_single plain_library black_80 (Path ''out.png'')
       [Border (Some 10), Thumbnail (Some 100)]) 50 99 = Inr [255, 255, 255]
   \<and> result_pixel (process_single plain_library black_80 (Path ''out.png'')
       [Border (Some 10), Thumbnail (Some 100)]) 50 50 = Inr [0, 0, 0]"
  unfolding result_size_def result_pixel_def plain_form
  by (simp add: bordered_80_def)

text \<open>The theorem at the black image, with the two arguments in both orders: the edit
  returns the bordered image of 100 by 100, whose top-left pixel is white.\<close>

theorem edit_pipeline_order_witness:
  "distinct (map key [Thumbnail (Some 100), Border (Some 10)])
   \<and> process_single plain_library black_80 (Path ''out.png'') [Border (Some 10), Thumbnail (Some 100)]
     = process_single plain_library black_80 (Path ''out.png'') [Thumbnail (Some 100), Border (Some 10)]
   \<and> mode black_80 = ''RGB'' \<and> width black_80 = 80 \<and> height black_80 = 80
   \<and> expand plain_library 10 ''white'' black_80 = Inr bordered_80
   \<and> fst (process_single plain_library black_80 (Path ''out.png'')
            [Thumbnail (Some 100), Border (Some 10)]) = Inr bordered_80
   \<and> width bordered_80 = 100 \<and> height bordered_80 = 100
   \<and> getcolor plain_library ''white'' ''RGB'' = Inr (pix bordered_80 0 0)
   \<and> pix bordered_80 0 0 = [255, 255, 255]"
proof -
  let ?kw = "[Thumbnail (Some 100), Border (Some 10)]" and ?kw' = "[Border (Some 10), Thumbnail (Some 100)]"
  have d: "distinct (map key ?kw)" "distinct (map key ?kw')" "set ?kw' = set ?kw" by auto
  have g: "\<not> get_auto_enhance ?kw" "\<forall>k. get_factor ?kw k = None" "\<forall>k. get_name ?kw k = None"
    "get_size ?kw ''border'' = Some 10" "get_size ?kw ''thumbnail'' = Some 100"
    "parse_color (get_border_color ?kw) = Inr ''white''"
    by (simp_all add: get_auto_enhance_def get_factor_def get_name_def get_size_def
         get_border_color_def kwargs_get_def parse_white)
  have b: "mode black_80 = ''RGB''" "width black_80 = 80" "height black_80 = 80"
    by (simp_all add: black_80_def)
  note t = edit_pipeline_order[of plain_library black_80 "Path ''out.png''" ?kw ?kw'
      bordered_80 "''white''" bordered_80]
  note order_free = t[THEN conjunct2, THEN conjunct2, THEN conjunct2, THEN conjunct1]
  note size = t[THEN conjunct2, THEN conjunct2, THEN conjunct2, THEN conjunct2, THEN conjunct1]
  note form = t[THEN conjunct2, THEN conjunct2, THEN conjunct2, THEN conjunct2, THEN conjunct2,
      THEN conjunct1]
  note border = t[THEN conjunct2, THEN conjunct2, THEN conjunct2, THEN conjunct2, THEN conjunct2,
      THEN conjunct2]
  have same: "process_single plain_library black_80 (Path ''out.png'') ?kw'
     = process_single plain_library black_80 (Path ''out.png'') ?kw"
    using order_free d by simp
  have sq: "center_square bordered_80 = bordered_80"
    and rs: "resize plain_library (100, 100) (center_square bordered_80) = Inr bordered_80"
    and corner: "getcolor plain_library ''white'' (mode black_80) = Inr (pix (center_square bordered_80) 0 0)"
    using border expand_black_80 b(2,3) by auto
  have r: "fst (process_single plain_library black_80 (Path ''out.png'') ?kw) = Inr bordered_80"
    using form g(1-5) b(1) by (simp add: g(6) expand_black_80 rs save_out_png)
  have size: "width bordered_80 = 100 \<and> height bordered_80 = 100"
    using size g(5) r by simp
  have px: "pix bordered_80 0 0 = [255, 255, 255]" by (simp add: bordered_80_def)
  show ?thesis using d(1) same b expand_black_80 r size corner px by (simp add: sq)
qed

section \<open>Properties of the range checks\<close>

lemma nan_passes: "clamp NaN lo hi nm = Inr NaN"
  by (simp add: clamp_def)

lemma write_image_trace:
  "snd (write_image lib out_path options img tr) = tr @ [(Saving, Save options)]"
  by (simp add: write_image_def split: option.split)

lemma fold_stages:
  assumes "\<forall>p\<in>set steps. logs_only (fst p) (snd p)"
  shows "fst ` set (snd (foldl and_then r (map snd steps))) \<subseteq> fst ` set (snd r) \<union> fst ` set steps"
  using assms
proof (induction steps arbitrary: r)
  case Nil
  then show ?case by simp
next
  case (Cons p steps)
  from Cons.prems have lp: "logs_only (fst p) (snd p)" by simp
  from and_then_trace[OF lp, of r] obtain ext where
    ext: "snd (and_then r (snd p)) = snd r @ ext" "fst ` set ext \<subseteq> {fst p}" by blast
  have "fst ` set (snd (foldl and_then (and_then r (snd p)) (map snd steps)))
          \<subseteq> fst ` set (snd (and_then r (snd p))) \<union> fst ` set steps"
    using Cons.IH[of "and_then r (snd p)"] Cons.prems by simp
  also have "\<dots> \<subseteq> fst ` set (snd r) \<union> fst ` set (p # steps)"
    using ext by auto
  finally show ?case by simp
qed

lemma and_then_reject:
  assumes "\<forall>img tr. \<exists>e. f img tr = (Inl e, tr)"
  shows "\<exists>e. and_then r f = (Inl e, snd r)"
proof (cases r)
  case (Pair res tr)
  show ?thesis
  proof (cases res)
    case (Inl e)
    then show ?thesis using Pair by (simp add: and_then_def)
  next
    case (Inr img)
    from assms obtain e where "f img tr = (Inl e, tr)" by blast
    then show ?thesis using Pair Inr by (simp add: and_then_def)
  qed
qed

lemma fold_reject:
  assumes logs: "\<forall>p\<in>set steps. logs_only (fst p) (snd p)"
    and k: "k < length steps"
    and rej: "\<forall>img tr. \<exists>e. snd (steps ! k) img tr = (Inl e, tr)"
  shows "(\<exists>e. fst (foldl and_then r (map snd steps)) = Inl e)
       \<and> fst ` set (snd (foldl and_then r (map snd steps)))
            \<subseteq> fst ` set (snd r) \<union> fst ` set (take k steps)"
proof -
  let ?pre = "take k steps" and ?post = "drop (Suc k) steps"
  let ?r1 = "foldl and_then r (map snd ?pre)"
  have split: "steps = ?pre @ steps ! k # ?post" using k by (rule id_take_nth_drop)
  have "\<forall>p\<in>set ?pre. logs_only (fst p) (snd p)" using logs by (meson in_set_takeD)
  then have st: "fst ` set (snd ?r1) \<subseteq> fst ` set (snd r) \<union> fst ` set ?pre"
    by (rule fold_stages)
  from and_then_reject[OF rej, of ?r1] obtain e where
    e: "and_then ?r1 (snd (steps ! k)) = (Inl e, snd ?r1)" by blast
  have "foldl and_then r (map snd steps)
      = foldl and_then (and_then ?r1 (snd (steps ! k))) (map snd ?post)"
    by (subst split) simp
  also have "\<dots> = (Inl e, snd ?r1)" by (simp add: e foldl_and_then_failed)
  finally have "foldl and_then r (map snd steps) = (Inl e, snd ?r1)" .
  then show ?thesis using st by simp
qed

lemma process_single_reject:
  assumes k: "k < 12"
    and rej: "\<forall>img tr. \<exists>e. snd (pipeline lib out_path kwargs ! k) img tr = (Inl e, tr)"
  shows "(\<exists>e. fst (process_single lib decoded out_path kwargs) = Inl e)
       \<and> (\<forall>c\<in>set (snd (process_single lib decoded out_path kwargs)). rank (fst c) \<le> k)"
proof -
  have len: "k < length (pipeline lib out_path kwargs)" using k by (simp add: pipeline_def)
  note r = fold_reject[OF pipeline_logs len rej, of "open_stage lib decoded", folded process_single_fold]
  have "fst ` set (take k (pipeline lib out_path kwargs)) = set (take k (map fst (pipeline lib out_path kwargs)))"
    by (simp add: take_map)
  also have "\<dots> \<subseteq> {s. rank s \<le> k}"
  proof
    fix s assume "s \<in> set (take k (map fst (pipeline lib out_path kwargs)))"
    then obtain i where i: "i < k" "s = map fst (pipeline lib out_path kwargs) ! i"
      using len by (auto simp: in_set_conv_nth)
    have "i < 12" using i k by simp
    then have "i = 0 \<or> i = 1 \<or> i = 2 \<or> i = 3 \<or> i = 4 \<or> i = 5 \<or> i = 6 \<or> i = 7
        \<or> i = 8 \<or> i = 9 \<or> i = 10 \<or> i = 11" by arith
    then have "rank (map fst (pipeline lib out_path kwargs) ! i) = Suc i"
      unfolding pipeline_stages by (elim disjE) simp_all
    then show "s \<in> {s. rank s \<le> k}" using i by simp
  qed
  finally have pre: "fst ` set (take k (pipeline lib out_path kwargs)) \<subseteq> {s. rank s \<le> k}" .
  have "\<forall>c\<in>set (snd (process_single lib decoded out_path kwargs)). rank (fst c) \<le> k"
  proof
    fix c assume "c \<in> set (snd (process_single lib decoded out_path kwargs))"
    then have "fst c \<in> fst ` set (snd (open_stage lib decoded)) \<union> fst ` set (take k (pipeline lib out_path kwargs))"
      using r by blast
    then show "rank (fst c) \<le> k" using pre open_stage_trace[of lib decoded] by auto
  qed
  then show ?thesis using r by blast
qed

lemma optional_reject:
  assumes "v = Some x" "\<forall>img tr. \<exists>e. f img x tr = (Inl e, tr)"
  shows "\<forall>img tr. \<exists>e. optional v f img tr = (Inl e, tr)"
  using assms by (simp add: optional_def)

lemma enhancement_rejects:
  "below x 0 \<or> above x 10 \<Longrightarrow>
     apply_enhancement st nm kind lib img x tr = (Inl (ValueError (Out_of_range nm 0 10 x)), tr)"
  by (auto simp: apply_enhancement_def clamp_def)

lemma hue_rejects:
  "below d (- 180) \<or> above d 180 \<Longrightarrow>
     apply_hue lib img d tr = (Inl (ValueError (Out_of_range ''hue'' (- 180) 180 d)), tr)"
  by (auto simp: apply_hue_def clamp_def)

lemma border_rejects:
  "w < 1 \<or> 500 < w \<Longrightarrow>
     apply_border lib img w color tr = (Inl (ValueError (Out_of_range ''border'' 1 500 (Finite (of_int w)))), tr)"
  by (auto simp: apply_border_def clamp_def)

lemma thumbnail_rejects:
  "s < 16 \<or> 4096 < s \<Longrightarrow>
     apply_thumbnail lib img s tr
       = (Inl (ValueError (Out_of_range ''thumbnail size'' 16 4096 (Finite (of_int s)))), tr)"
  by (auto simp: apply_thumbnail_def clamp_def)

lemma reject_brightness:
  assumes "get_factor kwargs ''brightness'' = Some x" "below x 0 \<or> above x 10"
  shows "(\<exists>e. fst (process_single lib decoded out_path kwargs) = Inl e)
       \<and> (\<forall>c\<in>set (snd (process_single lib decoded out_path kwargs)). rank (fst c) \<le> 1)"
  by (rule process_single_reject)
     (simp_all add: pipeline_def optional_def assms(1) apply_brightness_def enhancement_rejects[OF assms(2)])

lemma reject_contrast:
  assumes "get_factor kwargs ''contrast'' = Some x" "below x 0 \<or> above x 10"
  shows "(\<exists>e. fst (process_single lib decoded out_path kwargs) = Inl e)
       \<and> (\<forall>c\<in>set (snd (process_single lib decoded out_path kwargs)). rank (fst c) \<le> 2)"
  by (rule process_single_reject)
     (simp_all add: pipeline_def optional_def assms(1) apply_contrast_def enhancement_rejects[OF assms(2)])

lemma reject_saturation:
  assumes "get_factor kwargs ''saturation'' = Some x" "below x 0 \<or> above x 10"
  shows "(\<exists>e. fst (process_single lib decoded out_path kwargs) = Inl e)
       \<and> (\<forall>c\<in>set (snd (process_single lib decoded out_path kwargs)). rank (fst c) \<le> 3)"
  by (rule process_single_reject)
     (simp_all add: pipeline_def optional_def assms(1) apply_saturation_def enhancement_rejects[OF assms(2)])

lemma reject_sharpness:
  assumes "get_factor kwargs ''sharpness'' = Some x" "below x 0 \<or> above x 10"
  shows "(\<exists>e. fst (process_single lib decoded out_path kwargs) = Inl e)
       \<and> (\<forall>c\<in>set (snd (process_single lib decoded out_path kwargs)). rank (fst c) \<le> 4)"
  by (rule process_single_reject)
     (simp_all add: pipeline_def optional_def assms(1) apply_sharpness_def enhancement_rejects[OF assms(2)])

lemma reject_hue:
  assumes "get_factor kwargs ''hue'' = Some x" "below x (- 180) \<or> above x 180"
  shows "(\<exists>e. fst (process_single lib decoded out_path kwargs) = Inl e)
       \<and> (\<forall>c\<in>set (snd (process_single lib decoded out_path kwargs)). rank (fst c) \<le> 5)"
  by (rule process_single_reject)
     (simp_all add: pipeline_def optional_def assms(1) hue_rejects[OF assms(2)])

lemma reject_border:
  assumes "get_size kwargs ''border'' = Some w" "w < 1 \<or> 500 < w"
  shows "(\<exists>e. fst (process_single lib decoded out_path kwargs) = Inl e)
       \<and> (\<forall>c\<in>set (snd (process_single lib decoded out_path kwargs)). rank (fst c) \<le> 8)"
  by (rule process_single_reject)
     (simp_all add: pipeline_def optional_def assms(1) border_rejects[OF assms(2)])

lemma reject_thumbnail:
  assumes "get_size kwargs ''thumbnail'' = Some s" "s < 16 \<or> 4096 < s"
  shows "(\<exists>e. fst (process_single lib decoded out_path kwargs) = Inl e)
       \<and> (\<forall>c\<in>set (snd (process_single lib decoded out_path kwargs)). rank (fst c) \<le> 10)"
  by (rule process_single_reject)
     (simp_all add: pipeline_def optional_def assms(1) thumbnail_rejects[OF assms(2)])

lemma weaken_rank:
  assumes "(\<exists>e. fst r = Inl e) \<and> (\<forall>c\<in>set (snd r). rank (fst c) \<le> k)" "k < rank st"
  shows "(\<exists>e. fst r = Inl e) \<and> (\<forall>c\<in>set (snd r). rank (fst c) < rank st)"
  using assms by fastforce

lemma range_checks_process:
  assumes "(nm, st, v, lo, hi) \<in> set (range_checks kwargs)" "v = Some x" "below x lo \<or> above x hi"
  shows "(\<exists>e. fst (process_single lib decoded out_path kwargs) = Inl e)
       \<and> (\<forall>c\<in>set (snd (process_single lib decoded out_path kwargs)). rank (fst c) < rank st)"
proof -
  from assms(1) consider
      (b) "st = Brightness_stage" "v = get_factor kwargs ''brightness''" "lo = 0" "hi = 10"
    | (c) "st = Contrast_stage" "v = get_factor kwargs ''contrast''" "lo = 0" "hi = 10"
    | (s) "st = Saturation_stage" "v = get_factor kwargs ''saturation''" "lo = 0" "hi = 10"
    | (sh) "st = Sharpness_stage" "v = get_factor kwargs ''sharpness''" "lo = 0" "hi = 10"
    | (h) "st = Hue_stage" "v = get_factor kwargs ''hue''" "lo = - 180" "hi = 180"
    | (bo) "st = Border_stage" "v = map_option (\<lambda>w. Finite (of_int w)) (get_size kwargs ''border'')" "lo = 1" "hi = 500"
    | (t) "st = Thumbnail_stage" "v = map_option (\<lambda>w. Finite (of_int w)) (get_size kwargs ''thumbnail'')" "lo = 16" "hi = 4096"
    by (auto simp: range_checks_def)
  then show ?thesis
  proof cases
    case b
    show ?thesis using reject_brightness[of kwargs x lib decoded out_path] assms(2,3) b
      by (intro weaken_rank[where k=1]) simp_all
  next
    case c
    show ?thesis using reject_contrast[of kwargs x lib decoded out_path] assms(2,3) c
      by (intro weaken_rank[where k=2]) simp_all
  next
    case s
    show ?thesis using reject_saturation[of kwargs x lib decoded out_path] assms(2,3) s
      by (intro weaken_rank[where k=3]) simp_all
  next
    case sh
    show ?thesis using reject_sharpness[of kwargs x lib decoded out_path] assms(2,3) sh
      by (intro weaken_rank[where k=4]) simp_all
  next
    case h
    show ?thesis using reject_hue[of kwargs x lib decoded out_path] assms(2,3) h
      by (intro weaken_rank[where k=5]) simp_all
  next
    case bo
    from bo(2) assms(2) obtain w where w: "get_size kwargs ''border'' = Some w" "x = Finite (of_int w)"
      by (cases "get_size kwargs ''border''") auto
    then have "w < 1 \<or> 500 < w" using assms(3) bo by auto
    then show ?thesis using reject_border[OF w(1), of lib decoded out_path] bo
      by (intro weaken_rank[where k=8]) simp_all
  next
    case t
    from t(2) assms(2) obtain w where w: "get_size kwargs ''thumbnail'' = Some w" "x = Finite (of_int w)"
      by (cases "get_size kwargs ''thumbnail''") auto
    then have "w < 16 \<or> 4096 < w" using assms(3) t by auto
    then show ?thesis using reject_thumbnail[OF w(1), of lib decoded out_path] t
      by (intro weaken_rank[where k=10]) simp_all
  qed
qed

text \<open>
  Claim C5, as the code has it. The editor checks the enhancement factors (0 to 10), the
  hue shift (-180 to 180), the border width (1 to 500) and the thumbnail size (16 to
  4096), each inside the transform that takes the value. A transform given a value below
  its lower bound or above its upper bound raises \<^verbatim>\<open>ValueError\<close> naming the parameter, the
  two bounds and the value, and makes no library call. In \<open>process_single\<close>, when the value
  handed to a transform is below its lower bound or above its upper bound, the call
  fails, and the log holds no call of that transform or of a later one; the decoding and
  the earlier transforms have run. A NaN is neither below nor above a bound: the check
  returns it and the transform makes its library call with it. The check is part of the
  processor that both front ends call.
\<close>

theorem range_checks_enforced:
  "(\<forall>(nm, st, v, lo, hi) \<in> set (range_checks kwargs). \<forall>x. v = Some x \<and> (below x lo \<or> above x hi) \<longrightarrow>
      (\<exists>e. fst (process_single lib decoded out_path kwargs) = Inl e)
      \<and> (\<forall>c\<in>set (snd (process_single lib decoded out_path kwargs)). rank (fst c) < rank st))
   \<and> (below f 0 \<or> above f 10 \<longrightarrow>
        apply_brightness lib img f tr = (Inl (ValueError (Out_of_range ''brightness'' 0 10 f)), tr)
        \<and> apply_contrast lib img f tr = (Inl (ValueError (Out_of_range ''contrast'' 0 10 f)), tr)
        \<and> apply_saturation lib img f tr = (Inl (ValueError (Out_of_range ''saturation'' 0 10 f)), tr)
        \<and> apply_sharpness lib img f tr = (Inl (ValueError (Out_of_range ''sharpness'' 0 10 f)), tr))
   \<and> (below d (- 180) \<or> above d 180 \<longrightarrow>
        apply_hue lib img d tr = (Inl (ValueError (Out_of_range ''hue'' (- 180) 180 d)), tr))
   \<and> (w < 1 \<or> 500 < w \<longrightarrow>
        apply_border lib img w color tr
          = (Inl (ValueError (Out_of_range ''border'' 1 500 (Finite (of_int w)))), tr))
   \<and> (s < 16 \<or> 4096 < s \<longrightarrow>
        apply_thumbnail lib img s tr
          = (Inl (ValueError (Out_of_range ''thumbnail size'' 16 4096 (Finite (of_int s)))), tr))
   \<and> clamp NaN lo hi nm = Inr NaN
   \<and> apply_brightness lib img NaN tr
        = (transform lib (Enhance ''Brightness'' NaN) img,
           tr @ [(Brightness_stage, Enhance ''Brightness'' NaN)])"
proof (intro conjI impI)
  show "\<forall>(nm, st, v, lo, hi) \<in> set (range_checks kwargs). \<forall>x. v = Some x \<and> (below x lo \<or> above x hi) \<longrightarrow>
      (\<exists>e. fst (process_single lib decoded out_path kwargs) = Inl e)
      \<and> (\<forall>c\<in>set (snd (process_single lib decoded out_path kwargs)). rank (fst c) < rank st)"
    using range_checks_process[of _ _ _ _ _ kwargs _ lib decoded out_path] by blast
  show "clamp NaN lo hi nm = Inr NaN" by (rule nan_passes)
  show "apply_brightness lib img NaN tr
        = (transform lib (Enhance ''Brightness'' NaN) img,
           tr @ [(Brightness_stage, Enhance ''Brightness'' NaN)])"
    by (simp add: apply_brightness_def apply_enhancement_def nan_passes)
qed (simp_all add: apply_brightness_def apply_contrast_def apply_saturation_def apply_sharpness_def
       enhancement_rejects hue_rejects border_rejects thumbnail_rejects)

lemma eval_brightness_11:
  "process_single plain_library black_80 (Path ''out.png'')
       [Brightness (Some (Finite 11)), Auto_enhance True]
     = (Inl (ValueError (Out_of_range ''brightness'' 0 10 (Finite 11))),
        [(Opening, Open), (Auto_enhance_stage, Autocontrast)])"
  by (simp add: process_single_def open_stage_def black_80_def and_then_def optional_def
      get_auto_enhance_def get_factor_def kwargs_get_def apply_auto_enhance_def
      apply_brightness_def apply_enhancement_def clamp_def plain_library_def)

lemma eval_thumbnail_8:
  "process_single plain_library black_80 (Path ''out.png'') [Thumbnail (Some 8), Border (Some 10)]
     = (Inl (ValueError (Out_of_range ''thumbnail size'' 16 4096 (Finite 8))),
        [(Opening, Open), (Border_stage, Expand 10 ''white'')])"
  by (simp add: process_single_def open_stage_def and_then_def optional_def
      get_auto_enhance_def get_factor_def get_name_def get_size_def get_border_color_def
      kwargs_get_def apply_border_def parse_white apply_thumbnail_def clamp_def
      expand_black_80)
     (simp add: black_80_def)

lemma eval_border_0:
  "process_single plain_library black_80 (Path ''out.png'') [Border (Some 0)]
     = (Inr black_80, [(Opening, Open), (Saving, Save [Quality 95])])"
  by (simp add: process_single_def open_stage_def and_then_def optional_def
      get_auto_enhance_def get_factor_def get_name_def get_size_def
      kwargs_get_def save_stage_def write_image_def save_out_png)
     (simp add: black_80_def)

text \<open>The theorem at thumbnail size 8 with border 10, where the border is made and the
  thumbnail is refused, and at single transforms.\<close>

theorem range_checks_enforced_witness:
  "(''thumbnail size'', Thumbnail_stage, Some (Finite 8), 16, 4096)
       \<in> set (range_checks [Thumbnail (Some 8), Border (Some 10)])
   \<and> below (Finite 8) 16
   \<and> process_single plain_library black_80 (Path ''out.png'') [Thumbnail (Some 8), Border (Some 10)]
     = (Inl (ValueError (Out_of_range ''thumbnail size'' 16 4096 (Finite 8))),
        [(Opening, Open), (Border_stage, Expand 10 ''white'')])
   \<and> (\<exists>e. fst (process_single plain_library black_80 (Path ''out.png'')
                    [Thumbnail (Some 8), Border (Some 10)]) = Inl e)
   \<and> rank Border_stage < rank Thumbnail_stage
   \<and> apply_brightness plain_library black_80 (Finite 11) []
     = (Inl (ValueError (Out_of_range ''brightness'' 0 10 (Finite 11))), [])
   \<and> apply_hue plain_library black_80 (Finite 200) []
     = (Inl (ValueError (Out_of_range ''hue'' (- 180) 180 (Finite 200))), [])
   \<and> apply_border plain_library black_80 501 None []
     = (Inl (ValueError (Out_of_range ''border'' 1 500 (Finite 501))), [])
   \<and> apply_thumbnail plain_library black_80 8 []
     = (Inl (ValueError (Out_of_range ''thumbnail size'' 16 4096 (Finite 8))), [])"
proof -
  let ?kw = "[Thumbnail (Some 8), Border (Some 10)]"
  note t = range_checks_enforced[of ?kw plain_library black_80 "Path ''out.png''"
      "Finite 11" black_80 "[]" "Finite 200" 501 None 8]
  have m: "(''thumbnail size'', Thumbnail_stage, Some (Finite 8), 16, 4096) \<in> set (range_checks ?kw)"
    by (simp add: range_checks_def get_size_def kwargs_get_def)
  have b: "below (Finite 8) 16" by simp
  from t have "\<forall>(nm, st, v, lo, hi) \<in> set (range_checks ?kw). \<forall>x. v = Some x \<and> (below x lo \<or> above x hi) \<longrightarrow>
      (\<exists>e. fst (process_single plain_library black_80 (Path ''out.png'') ?kw) = Inl e)
      \<and> (\<forall>c\<in>set (snd (process_single plain_library black_80 (Path ''out.png'') ?kw)). rank (fst c) < rank st)"
    by (rule conjunct1)
  from bspec[OF this m] b
  have r: "\<exists>e. fst (process_single plain_library black_80 (Path ''out.png'') ?kw) = Inl e"
    by simp
  have rest: "apply_brightness plain_library black_80 (Finite 11) []
     = (Inl (ValueError (Out_of_range ''brightness'' 0 10 (Finite 11))), [])
   \<and> apply_hue plain_library black_80 (Finite 200) []
     = (Inl (ValueError (Out_of_range ''hue'' (- 180) 180 (Finite 200))), [])
   \<and> apply_border plain_library black_80 501 None []
     = (Inl (ValueError (Out_of_range ''border'' 1 500 (Finite 501))), [])
   \<and> apply_thumbnail plain_library black_80 8 []
     = (Inl (ValueError (Out_of_range ''thumbnail size'' 16 4096 (Finite 8))), [])"
    using t[THEN conjunct2] by simp
  show ?thesis using m b r rest eval_thumbnail_8 by simp
qed

lemma suffix_out_jpg: "map lower_char (suffix_of (Path ''out.jpg'')) = ''.jpg''"
  by code_simp

lemma compress_quality_passed_on:
  "snd (compress_process_single plain_library black_80 (Path ''out.jpg'') 1000)
     = [(Opening, Open), (Saving, Save [Optimize, Quality 1000, Progressive])]"
proof -
  have "mode black_80 = ''RGB''" by (simp add: black_80_def)
  then show ?thesis
    by (simp add: compress_process_single_def suffix_out_jpg write_image_trace)
qed

text \<open>
  Claim C5 as stated fails. With auto-enhance and a brightness of 11, the range error
  comes after two library calls, the decoding and the autocontrast. A border width of 0
  is outside 1 to 500 and raises nothing: the image is saved as it was decoded. With a
  quality of 1000, \<open>compress.process_single\<close> checks nothing and calls \<^verbatim>\<open>save\<close> with that
  quality.
\<close>

theorem range_check_not_first_counterexample:
  "process_single plain_library black_80 (Path ''out.png'')
       [Brightness (Some (Finite 11)), Auto_enhance True]
     = (Inl (ValueError (Out_of_range ''brightness'' 0 10 (Finite 11))),
        [(Opening, Open), (Auto_enhance_stage, Autocontrast)])
   \<and> process_single plain_library black_80 (Path ''out.png'') [Border (Some 0)]
     = (Inr black_80, [(Opening, Open), (Saving, Save [Quality 95])])
   \<and> snd (compress_process_single plain_library black_80 (Path ''out.jpg'') 1000)
     = [(Opening, Open), (Saving, Save [Optimize, Quality 1000, Progressive])]"
  using eval_brightness_11 eval_border_0 compress_quality_passed_on by (intro conjI)

end
